theory Spec2Isabelle
  imports Main "HOL-Library.Word"
begin

unbundle bit_operations_syntax

section \<open>Data model of the tray library (tray.h, tray_windows.c)\<close>

text \<open>
  Machine types of the Windows headers. \<open>UINT\<close> and \<open>DWORD\<close> are 32-bit and wrap around;
  \<open>WORD\<close> is 16-bit; \<open>WPARAM\<close> and \<open>LPARAM\<close> are pointer-sized (64-bit here). Handles
  (\<open>HMENU\<close>, \<open>HICON\<close>, \<open>HWND\<close>) are natural numbers handed out by the system, and a
  handle or pointer that may be \<open>NULL\<close> is an \<open>option\<close> with \<open>None\<close> for \<open>NULL\<close>.
  A C \<open>int\<close> that the code only tests against zero or negates with \<open>!\<close> is an \<open>int\<close>.
\<close>

type_synonym UINT = "32 word"
type_synonym DWORD = "32 word"
type_synonym WORD = "16 word"
type_synonym WPARAM = "64 word"
type_synonym LPARAM = "64 word"

text \<open>
  \<open>struct tray_menu\<close>. A sibling array is a list of these records; the array ends at the
  first record whose \<open>text\<close> is \<open>NULL\<close>. The fields \<open>text\<close> and \<open>context\<close> are
  written \<open>menu_text\<close> and \<open>menu_context\<close>. The callback \<open>cb\<close> is a function pointer supplied
  by the caller: \<open>Some k\<close> names the caller's routine number \<open>k\<close>, whose body is not part
  of the library.
\<close>

datatype tray_menu = Tray_menu
  (menu_text: "string option")
  (disabled: int)
  (checked: int)
  (checkbox: int)
  (cb: "nat option")
  (menu_context: nat)
  (submenu: "tray_menu list option")

text \<open>
  The address of a \<open>struct tray_menu\<close> inside the caller's tree is the list of array
  indices that leads to it from the root array: \<open>[i]\<close> is \<open>&root[i]\<close>, \<open>[i, j]\<close> is
  \<open>&root[i].submenu[j]\<close>.
\<close>

type_synonym menu_ptr = "nat list"

text \<open>
  The menu objects the system keeps. An item carries what \<open>MENUITEMINFOA\<close> gave it:
  \<open>wID\<close>, \<open>fType\<close>, \<open>fState\<close>, \<open>dwTypeData\<close>, \<open>dwItemData\<close> (the back-reference; \<open>None\<close> is
  the value 0) and \<open>hSubMenu\<close>. An \<open>HMENU\<close> is the handle together with the items
  inserted into it, in their order.
\<close>

datatype native_item = Native_item
  (wID: UINT)
  (fType: UINT)
  (fState: UINT)
  (dwTypeData: "string option")
  (dwItemData: "menu_ptr option")
  (hSubMenu: "native_menu option")
and native_menu = Native_menu
  (handle: nat)
  (items: "native_item list")

definition ID_TRAY_FIRST :: UINT where
  "ID_TRAY_FIRST = 1000"

text \<open>Constants of winuser.h used by the menu code.\<close>

definition MFT_SEPARATOR :: UINT where
  "MFT_SEPARATOR = 0x800"

definition MFS_DISABLED :: UINT where
  "MFS_DISABLED = 0x3"

definition MFS_CHECKED :: UINT where
  "MFS_CHECKED = 0x8"

section \<open>The menu builder \<open>_tray_menu\<close>\<close>

text \<open>
  \<open>InsertMenuA(hmenu, *id, MF_SEPARATOR, 0, NULL)\<close> adds a separator: its identifier is
  the \<open>uIDNewItem\<close> argument 0 and it has no item data.
\<close>

definition separator_item :: native_item where
  "separator_item = Native_item 0 MFT_SEPARATOR 0 None None None"

text \<open>
  \<open>tray_menu_build\<close> is \<open>_tray_menu\<close>: \<open>CreatePopupMenu\<close> takes the next free handle, then
  the \<open>for\<close> loop \<open>tray_menu_loop\<close> walks the array from index \<open>i\<close>. The pair threaded
  through is \<open>(idc, nh)\<close>: the counter \<open>*id\<close> and the next free handle. \<open>pre\<close> is the address of the parent record,
  so \<open>pre @ [i]\<close> is the address \<open>m\<close> of the record at hand. Every insertion is at a
  position or command beyond the items already there, which the system treats as an
  append; the loop therefore returns the items in insertion order.
\<close>

fun tray_menu_build :: "menu_ptr \<Rightarrow> tray_menu list option \<Rightarrow> UINT \<times> nat \<Rightarrow> native_menu \<times> (UINT \<times> nat)"
and tray_menu_loop :: "menu_ptr \<Rightarrow> nat \<Rightarrow> tray_menu list \<Rightarrow> UINT \<times> nat \<Rightarrow> native_item list \<times> (UINT \<times> nat)"
where
  "tray_menu_build pre None (idc, nh) = (Native_menu nh [], (idc, Suc nh))"
| "tray_menu_build pre (Some ms) (idc, nh) =
     (case tray_menu_loop pre 0 ms (idc, Suc nh) of
        (its, st) \<Rightarrow> (Native_menu nh its, st))"
| "tray_menu_loop pre i [] (idc, nh) = ([], (idc, nh))"
| "tray_menu_loop pre i (Tray_menu None d c cx k ctx sub # ms) (idc, nh) = ([], (idc, nh))"
| "tray_menu_loop pre i (Tray_menu (Some t) d c cx k ctx sub # ms) (idc, nh) =
     (if t = ''-'' then
        (case tray_menu_loop pre (Suc i) ms (idc + 1, nh) of
           (rest, st) \<Rightarrow> (separator_item # rest, st))
      else
        (case (case sub of
                 None \<Rightarrow> (None, (idc, nh))
               | Some sm \<Rightarrow>
                   (case tray_menu_build (pre @ [i]) (Some sm) (idc, nh) of
                      (h, st) \<Rightarrow> (Some h, st))) of
           (hsub, (idc', nh')) \<Rightarrow>
             (case tray_menu_loop pre (Suc i) ms (idc' + 1, nh') of
                (rest, st) \<Rightarrow>
                  (Native_item idc' 0
                     ((if d \<noteq> 0 then MFS_DISABLED else 0) OR (if c \<noteq> 0 then MFS_CHECKED else 0))
                     (Some t) (Some (pre @ [i])) hsub # rest, st))))"

section \<open>What the built menu binds\<close>

text \<open>
  The identifier-to-record table of a native menu: every item with item data, as the
  pair of its \<open>wID\<close> and its back-reference, the items of a submenu before the item
  that opens it.
\<close>

fun item_bindings :: "native_item \<Rightarrow> (UINT \<times> menu_ptr) list"
and menu_bindings :: "native_menu \<Rightarrow> (UINT \<times> menu_ptr) list"
where
  "item_bindings (Native_item w ty st td dat sub) =
     (case sub of None \<Rightarrow> [] | Some hm \<Rightarrow> menu_bindings hm) @
     (case dat of None \<Rightarrow> [] | Some p \<Rightarrow> [(w, p)])"
| "menu_bindings (Native_menu h its) = concat (map item_bindings its)"

text \<open>
  The records the loop visits, in the order in which each one uses up a value of the
  counter: \<open>(address, True)\<close> for a record that becomes an item, \<open>(address, False)\<close> for
  a separator. \<open>slots\<close> lists the records of a submenu before the record that owns it
  (post-order); \<open>slots_preorder\<close> lists the owner first (pre-order).
\<close>

fun slots :: "menu_ptr \<Rightarrow> nat \<Rightarrow> tray_menu list \<Rightarrow> (menu_ptr \<times> bool) list" where
  "slots pre i [] = []"
| "slots pre i (Tray_menu None d c cx k ctx sub # ms) = []"
| "slots pre i (Tray_menu (Some t) d c cx k ctx sub # ms) =
     (if t = ''-'' then [(pre @ [i], False)]
      else (case sub of None \<Rightarrow> [] | Some sm \<Rightarrow> slots (pre @ [i]) 0 sm) @ [(pre @ [i], True)])
     @ slots pre (Suc i) ms"

fun slots_preorder :: "menu_ptr \<Rightarrow> nat \<Rightarrow> tray_menu list \<Rightarrow> (menu_ptr \<times> bool) list" where
  "slots_preorder pre i [] = []"
| "slots_preorder pre i (Tray_menu None d c cx k ctx sub # ms) = []"
| "slots_preorder pre i (Tray_menu (Some t) d c cx k ctx sub # ms) =
     (if t = ''-'' then [(pre @ [i], False)]
      else (pre @ [i], True) # (case sub of None \<Rightarrow> [] | Some sm \<Rightarrow> slots_preorder (pre @ [i]) 0 sm))
     @ slots_preorder pre (Suc i) ms"

text \<open>Consecutive counter values along a list of slots; separators use one up unbound.\<close>

fun number :: "UINT \<Rightarrow> (menu_ptr \<times> bool) list \<Rightarrow> (UINT \<times> menu_ptr) list" where
  "number idc [] = []"
| "number idc ((p, b) # r) = (if b then [(idc, p)] else []) @ number (idc + 1) r"

definition slots_of :: "menu_ptr \<Rightarrow> tray_menu list option \<Rightarrow> (menu_ptr \<times> bool) list" where
  "slots_of pre m = (case m of None \<Rightarrow> [] | Some ms \<Rightarrow> slots pre 0 ms)"

text \<open>The identifier bound to a record in a native menu, if any.\<close>

definition id_of :: "native_menu \<Rightarrow> menu_ptr \<Rightarrow> UINT option" where
  "id_of hm p = map_of (map (\<lambda>(w, q). (q, w)) (menu_bindings hm)) p"

definition ids_along :: "native_menu \<Rightarrow> menu_ptr list \<Rightarrow> UINT list" where
  "ids_along hm ps = List.map_filter (id_of hm) ps"


section \<open>C strings and the fixed-size buffers of \<open>NOTIFYICONDATAA\<close>\<close>

definition NUL :: char where
  "NUL = CHR 0x00"

text \<open>
  A \<open>const char *\<close> argument is the bytes found at the pointer; the string it denotes
  ends before the first \<open>NUL\<close>.
\<close>

definition c_str :: "string \<Rightarrow> string" where
  "c_str s = takeWhile (\<lambda>c. c \<noteq> NUL) s"

text \<open>
  A buffer is the list of its bytes, and \<open>sizeof\<close> of the buffer is the length of the
  list. Writing \<open>bytes\<close> at the start of \<open>dst\<close> replaces that many bytes; a write
  longer than the buffer would run past its end, and the model then keeps the extra
  bytes, so that an overflow shows as a longer buffer.
\<close>

definition write_bytes :: "string \<Rightarrow> string \<Rightarrow> string" where
  "write_bytes dst bytes = bytes @ drop (length bytes) dst"

text \<open>
  \<open>strncpy(dst, src, n)\<close> writes exactly \<open>n\<close> bytes: the string cut at \<open>n\<close>, then \<open>NUL\<close>
  padding.
\<close>

definition strncpy :: "string \<Rightarrow> string \<Rightarrow> nat \<Rightarrow> string" where
  "strncpy dst src n =
     write_bytes dst (take n (c_str src) @ replicate (n - length (c_str src)) NUL)"

text \<open>
  \<open>StringCchCopyA(dst, cchDest, src)\<close> of strsafe.h: it refuses a size of 0 or above
  \<open>STRSAFE_MAX_CCH\<close> without writing; otherwise it copies at most \<open>cchDest - 1\<close>
  characters and always writes the terminator.
\<close>

definition STRSAFE_MAX_CCH :: nat where
  "STRSAFE_MAX_CCH = 2147483647"

definition StringCchCopyA :: "string \<Rightarrow> nat \<Rightarrow> string \<Rightarrow> string" where
  "StringCchCopyA dst cchDest src =
     (if cchDest = 0 \<or> STRSAFE_MAX_CCH < cchDest then dst
      else write_bytes dst (take (cchDest - 1) (c_str src) @ [NUL]))"

text \<open>
  \<open>safe_copy_sz\<close>. The destination is one of the buffers of \<open>nid\<close>, never \<open>NULL\<close>; the
  source may be \<open>NULL\<close>.
\<close>

definition safe_copy_sz :: "string \<Rightarrow> nat \<Rightarrow> string option \<Rightarrow> string" where
  "safe_copy_sz dst dstcch src =
     (if dstcch = 0 then dst
      else case src of
             None \<Rightarrow> dst[0 := NUL]
           | Some sr \<Rightarrow> StringCchCopyA dst dstcch sr)"

text \<open>
  The fields of \<open>NOTIFYICONDATAA\<close> that the code reads or writes (\<open>cbSize\<close> and the
  constant \<open>guidItem\<close> are left out).
\<close>

record NOTIFYICONDATAA =
  hWnd :: "nat option"
  uID :: UINT
  uFlags :: UINT
  uCallbackMessage :: UINT
  hIcon :: "nat option"
  szTip :: string
  szInfo :: string
  uVersion :: UINT
  szInfoTitle :: string
  dwInfoFlags :: DWORD
  hBalloonIcon :: "nat option"

text \<open>\<open>memset(&nid, 0, sizeof(nid))\<close>, with the buffer sizes of shellapi.h.\<close>

definition nid_zero :: NOTIFYICONDATAA where
  "nid_zero = \<lparr>hWnd = None, uID = 0, uFlags = 0, uCallbackMessage = 0, hIcon = None,
     szTip = replicate 128 NUL, szInfo = replicate 256 NUL, uVersion = 0,
     szInfoTitle = replicate 64 NUL, dwInfoFlags = 0, hBalloonIcon = None\<rparr>"

text \<open>Constants of shellapi.h and winuser.h.\<close>

definition NIF_MESSAGE :: DWORD where "NIF_MESSAGE = 0x1"
definition NIF_ICON :: DWORD where "NIF_ICON = 0x2"
definition NIF_TIP :: DWORD where "NIF_TIP = 0x4"
definition NIF_INFO :: DWORD where "NIF_INFO = 0x10"
definition NIF_GUID :: DWORD where "NIF_GUID = 0x20"
definition NIF_SHOWTIP :: DWORD where "NIF_SHOWTIP = 0x80"
definition NIM_ADD :: DWORD where "NIM_ADD = 0"
definition NIM_MODIFY :: DWORD where "NIM_MODIFY = 1"
definition NIM_DELETE :: DWORD where "NIM_DELETE = 2"
definition NIM_SETVERSION :: DWORD where "NIM_SETVERSION = 4"
definition NOTIFYICON_VERSION_4 :: UINT where "NOTIFYICON_VERSION_4 = 4"
definition NIIF_NONE :: DWORD where "NIIF_NONE = 0"
definition NIIF_USER :: DWORD where "NIIF_USER = 0x4"
definition NIIF_LARGE_ICON :: DWORD where "NIIF_LARGE_ICON = 0x20"
definition WM_NULL :: UINT where "WM_NULL = 0x0"
definition WM_DESTROY :: UINT where "WM_DESTROY = 0x2"
definition WM_CLOSE :: UINT where "WM_CLOSE = 0x10"
definition WM_QUIT :: UINT where "WM_QUIT = 0x12"
definition WM_CONTEXTMENU :: UINT where "WM_CONTEXTMENU = 0x7B"
definition WM_COMMAND :: UINT where "WM_COMMAND = 0x111"
definition WM_INITMENUPOPUP :: UINT where "WM_INITMENUPOPUP = 0x117"
definition WM_LBUTTONUP :: UINT where "WM_LBUTTONUP = 0x202"
definition WM_RBUTTONUP :: UINT where "WM_RBUTTONUP = 0x205"
definition WM_USER :: UINT where "WM_USER = 0x400"
definition NIN_BALLOONUSERCLICK :: UINT where "NIN_BALLOONUSERCLICK = WM_USER + 5"
definition WM_TRAY_CALLBACK_MESSAGE :: UINT where "WM_TRAY_CALLBACK_MESSAGE = WM_USER + 1"

section \<open>The tray description, the icon cache and the process state\<close>

text \<open>
  \<open>struct tray\<close>. \<open>icon\<close> is passed to \<open>strcmp\<close> unchecked, so it is never \<open>NULL\<close>; the
  other strings may be.
\<close>

record tray =
  icon :: string
  tooltip :: "string option"
  notification_icon :: "string option"
  notification_text :: "string option"
  notification_title :: "string option"
  notification_cb :: "nat option"
  menu :: "tray_menu list option"
  iconPathCount :: int
  allIconPaths :: "string list"

text \<open>
  \<open>struct icon_info\<close>; its fields \<open>path\<close>, \<open>icon\<close>, \<open>large_icon\<close> and \<open>notification_icon\<close>
  carry the prefix \<open>info_\<close>.
\<close>

record icon_info =
  info_path :: string
  info_icon :: "nat option"
  info_large_icon :: "nat option"
  info_notification_icon :: "nat option"

datatype IconType = REGULAR | LARGE | NOTIFICATION

datatype tray_log_level = TRAY_LOG_DEBUG | TRAY_LOG_INFO | TRAY_LOG_WARNING | TRAY_LOG_ERROR

text \<open>
  What the library does to the outside world, in order: the calls of the system that
  have an effect, and the calls of the caller's routines. \<open>Ev_menu_cb k m\<close> is the call
  \<open>menu->cb(menu)\<close> of routine \<open>k\<close>, with the record \<open>m\<close> as it is at that moment;
  \<open>Ev_ExtractIconExA path large\<close> is the decoding of the large or of the small icon.
\<close>

datatype event =
    Ev_ExtractIconExA string bool
  | Ev_LoadImageA string
  | Ev_DestroyIcon nat
  | Ev_free_path string
  | Ev_DestroyMenu nat
  | Ev_Shell_NotifyIconA DWORD NOTIFYICONDATAA
  | Ev_SendMessage UINT
  | Ev_PostMessage UINT
  | Ev_PostQuitMessage
  | Ev_RegisterClassExA
  | Ev_UnregisterClassA
  | Ev_CreateWindowExA
  | Ev_UpdateWindow nat
  | Ev_DestroyWindow nat
  | Ev_SetForegroundWindow nat
  | Ev_TrackPopupMenu "nat option"
  | Ev_TranslateMessage UINT
  | Ev_DefWindowProc UINT
  | Ev_menu_cb nat tray_menu
  | Ev_notification_cb nat
  | Ev_log_cb nat tray_log_level string

text \<open>
  What the system answers. Each field is the outcome of one kind of call: the message
  number that \<open>RegisterWindowMessageA\<close> returns, whether a registration, creation or
  decoding succeeds, and the command that \<open>TrackPopupMenu\<close> returns (0 when the user
  dismisses the menu).
\<close>

record os_model =
  os_RegisterWindowMessageA :: UINT
  os_RegisterClassExA :: bool
  os_CreateWindowExA :: bool
  os_Shell_NotifyIconA :: "DWORD \<Rightarrow> bool"
  os_ExtractIconExA :: "string \<Rightarrow> bool \<Rightarrow> bool"
  os_LoadImageA :: "string \<Rightarrow> bool"
  os_TrackPopupMenu :: WORD

text \<open>
  The file-scope variables of tray_windows.c (\<open>notification_cb\<close> is written
  \<open>g_notification_cb\<close>; \<open>icon_info_count\<close> is the length of \<open>icon_infos\<close>), then the
  system's side: its answers, the next handle it will hand out, and the trace of
  events so far. \<open>g_tray\<close> points to the caller's description; the state holds that
  description, and a store through a back-reference changes it there.
\<close>

record tray_state =
  nid :: NOTIFYICONDATAA
  hwnd :: "nat option"
  hmenu :: "native_menu option"
  g_notification_cb :: "nat option"
  wm_taskbarcreated :: UINT
  g_tray :: "tray option"
  icon_infos :: "icon_info list"
  g_tray_log_cb :: "nat option"
  os :: os_model
  next_handle :: nat
  trace :: "event list"

definition emit :: "event \<Rightarrow> tray_state \<Rightarrow> tray_state" where
  "emit e s = s\<lparr>trace := trace s @ [e]\<rparr>"

text \<open>A call that creates an object takes the next handle when it succeeds.\<close>

definition alloc :: "bool \<Rightarrow> tray_state \<Rightarrow> nat option \<times> tray_state" where
  "alloc ok s = (if ok then (Some (next_handle s), s\<lparr>next_handle := Suc (next_handle s)\<rparr>)
                 else (None, s))"

text \<open>
  \<open>tray_log\<close> through \<open>tray_log_last_error\<close>: nothing happens without a log callback;
  otherwise the callback is called. Of the message only the context is kept, the rest
  is the system's error text.
\<close>

definition tray_log_last_error :: "tray_log_level \<Rightarrow> string \<Rightarrow> tray_state \<Rightarrow> tray_state" where
  "tray_log_last_error level ctx s =
     (case g_tray_log_cb s of
        None \<Rightarrow> s
      | Some k \<Rightarrow> emit (Ev_log_cb k level ctx) s)"

definition tray_set_log_callback :: "nat option \<Rightarrow> tray_state \<Rightarrow> tray_state" where
  "tray_set_log_callback k s = s\<lparr>g_tray_log_cb := k\<rparr>"

definition Shell_NotifyIconA :: "DWORD \<Rightarrow> tray_state \<Rightarrow> bool \<times> tray_state" where
  "Shell_NotifyIconA m s = (os_Shell_NotifyIconA (os s) m, emit (Ev_Shell_NotifyIconA m (nid s)) s)"

section \<open>The icon cache\<close>

text \<open>
  \<open>_create_icon_info\<close>: the path is copied, then the large icon, the small icon and
  the notification image are decoded by three separate calls. A decoding that fails
  leaves the handle \<open>NULL\<close>.
\<close>

definition create_icon_info :: "string \<Rightarrow> tray_state \<Rightarrow> icon_info \<times> tray_state" where
  "create_icon_info path s =
     (case alloc (os_ExtractIconExA (os s) path True) (emit (Ev_ExtractIconExA path True) s) of
        (large, s1) \<Rightarrow>
     (case alloc (os_ExtractIconExA (os s1) path False) (emit (Ev_ExtractIconExA path False) s1) of
        (small, s2) \<Rightarrow>
     (case alloc (os_LoadImageA (os s2) path) (emit (Ev_LoadImageA path) s2) of
        (note, s3) \<Rightarrow>
       (\<lparr>info_path = c_str path, info_icon = small, info_large_icon = large,
         info_notification_icon = note\<rparr>, s3))))"

text \<open>
  \<open>_init_icon_cache\<close>: the old array is dropped and one entry is made for each of the
  first \<open>count\<close> paths, in order.
\<close>

fun init_icon_cache_loop :: "string list \<Rightarrow> tray_state \<Rightarrow> tray_state" where
  "init_icon_cache_loop [] s = s"
| "init_icon_cache_loop (p # ps) s =
     (case create_icon_info p s of
        (info, s1) \<Rightarrow> init_icon_cache_loop ps (s1\<lparr>icon_infos := icon_infos s1 @ [info]\<rparr>))"

definition init_icon_cache :: "string list \<Rightarrow> int \<Rightarrow> tray_state \<Rightarrow> tray_state" where
  "init_icon_cache paths count s =
     init_icon_cache_loop (take (nat count) paths) (s\<lparr>icon_infos := []\<rparr>)"

text \<open>\<open>_destroy_icon_cache\<close>.\<close>

definition destroy_icon_info :: "icon_info \<Rightarrow> event list" where
  "destroy_icon_info info =
     (case info_icon info of None \<Rightarrow> [] | Some h \<Rightarrow> [Ev_DestroyIcon h]) @
     (case info_large_icon info of None \<Rightarrow> [] | Some h \<Rightarrow> [Ev_DestroyIcon h]) @
     (case info_notification_icon info of None \<Rightarrow> [] | Some h \<Rightarrow> [Ev_DestroyIcon h]) @
     [Ev_free_path (info_path info)]"

definition destroy_icon_cache :: "tray_state \<Rightarrow> tray_state" where
  "destroy_icon_cache s =
     s\<lparr>trace := trace s @ concat (map destroy_icon_info (icon_infos s)), icon_infos := []\<rparr>"

text \<open>\<open>_fetch_cached_icon\<close>.\<close>

fun fetch_cached_icon :: "icon_info \<Rightarrow> IconType \<Rightarrow> nat option" where
  "fetch_cached_icon icon_record REGULAR = info_icon icon_record"
| "fetch_cached_icon icon_record LARGE = info_large_icon icon_record"
| "fetch_cached_icon icon_record NOTIFICATION = info_notification_icon icon_record"

text \<open>
  \<open>_fetch_icon\<close>: the first entry whose path compares equal is served; if there is
  none, one entry is appended and served.
\<close>

definition fetch_icon :: "string \<Rightarrow> IconType \<Rightarrow> tray_state \<Rightarrow> nat option \<times> tray_state" where
  "fetch_icon path icon_type s =
     (case find (\<lambda>info. info_path info = c_str path) (icon_infos s) of
        Some info \<Rightarrow> (fetch_cached_icon info icon_type, s)
      | None \<Rightarrow>
          (case create_icon_info path s of
             (info, s1) \<Rightarrow>
               (fetch_cached_icon info icon_type, s1\<lparr>icon_infos := icon_infos s1 @ [info]\<rparr>)))"

section \<open>\<open>tray_update\<close>\<close>

text \<open>\<open>p && p[0]\<close>, and likewise \<open>p != 0 && strlen(p) > 0\<close>.\<close>

definition has_chars :: "string option \<Rightarrow> bool" where
  "has_chars p = (case p of None \<Rightarrow> False | Some t \<Rightarrow> c_str t \<noteq> [])"

text \<open>
  The statements of \<open>tray_update\<close>, grouped into the steps between which the state is
  observed. \<open>update_menu\<close> is \<open>hmenu = _tray_menu(tray->menu, &id)\<close> with \<open>id\<close> set to
  \<open>ID_TRAY_FIRST\<close>. The message \<open>WM_INITMENUPOPUP\<close> that \<open>SendMessage\<close> delivers is not
  one the window procedure handles (a registered message number is at least 0xC000),
  so it only shows as an event.
\<close>

definition update_menu :: "tray \<Rightarrow> tray_state \<Rightarrow> tray_state" where
  "update_menu tr s =
     (case tray_menu_build [] (menu tr) (ID_TRAY_FIRST, next_handle s) of
        (hm, (idc, nh)) \<Rightarrow> s\<lparr>hmenu := Some hm, next_handle := nh\<rparr>)"

text \<open>
  The icon and the tooltip: lines 393 to 413. The result is \<open>nid\<close> and the local
  variable \<open>flags\<close>.
\<close>

definition update_icon_tip :: "tray \<Rightarrow> nat option \<Rightarrow> NOTIFYICONDATAA \<Rightarrow> NOTIFYICONDATAA \<times> DWORD" where
  "update_icon_tip tr ic n =
     (let flags = NIF_MESSAGE OR NIF_GUID;
          (n1, flags1) = (if ic \<noteq> None then (n\<lparr>hIcon := ic\<rparr>, flags OR NIF_ICON) else (n, flags))
      in if has_chars (tooltip tr)
         then (n1\<lparr>szTip := (strncpy (szTip n1) (the (tooltip tr)) (length (szTip n1)))
                               [length (szTip n1) - 1 := NUL]\<rparr>,
               flags1 OR NIF_TIP OR NIF_SHOWTIP)
         else (n1\<lparr>szTip := (szTip n1)[0 := NUL]\<rparr>, flags1))"

text \<open>
  The notification: lines 417 to 449. \<open>hLarge\<close> is the image loaded from
  \<open>tray->notification_icon\<close> if that succeeds, else the icon held in \<open>nid.hIcon\<close>.
\<close>

definition update_info :: "tray \<Rightarrow> DWORD \<Rightarrow> tray_state \<Rightarrow> tray_state \<times> DWORD" where
  "update_info tr flags s =
     (let has_title = has_chars (notification_title tr);
          has_text = has_chars (notification_text tr)
      in if has_title \<or> has_text then
           (let n1 = (nid s)\<lparr>
                  szInfoTitle := safe_copy_sz (szInfoTitle (nid s)) (length (szInfoTitle (nid s)))
                                   (if has_title then notification_title tr else Some []),
                  szInfo := safe_copy_sz (szInfo (nid s)) (length (szInfo (nid s)))
                                   (if has_text then notification_text tr else Some []),
                  dwInfoFlags := NIIF_NONE\<rparr>
            in case (if has_chars (notification_icon tr)
                     then alloc (os_LoadImageA (os s) (the (notification_icon tr)))
                            (emit (Ev_LoadImageA (the (notification_icon tr))) s)
                     else (None, s)) of
                 (loaded, s1) \<Rightarrow>
                   (let hLarge = (if loaded = None \<and> hIcon n1 \<noteq> None then hIcon n1 else loaded)
                    in (s1\<lparr>nid := (if hLarge \<noteq> None
                                     then n1\<lparr>hBalloonIcon := hLarge,
                                              dwInfoFlags := NIIF_USER OR NIIF_LARGE_ICON\<rparr>
                                     else n1)\<rparr>,
                        flags OR NIF_INFO)))
         else (s\<lparr>nid := (nid s)\<lparr>szInfoTitle := (szInfoTitle (nid s))[0 := NUL],
                                 szInfo := (szInfo (nid s))[0 := NUL],
                                 dwInfoFlags := NIIF_NONE\<rparr>\<rparr>,
               flags))"

text \<open>
  Lines 452 to 458: the callback and the flags are stored, \<open>nid\<close> is applied with
  \<open>Shell_NotifyIconA(NIM_MODIFY, &nid)\<close>, and a failure is logged as a warning.
\<close>

definition update_apply :: "tray \<Rightarrow> DWORD \<Rightarrow> tray_state \<Rightarrow> tray_state" where
  "update_apply tr flags s =
     (case Shell_NotifyIconA NIM_MODIFY
             (s\<lparr>g_notification_cb := notification_cb tr, nid := (nid s)\<lparr>uFlags := flags\<rparr>\<rparr>) of
        (ok, s1) \<Rightarrow>
          if ok then s1
          else tray_log_last_error TRAY_LOG_WARNING ''Shell_NotifyIconA(NIM_MODIFY)'' s1)"

text \<open>\<open>if (prevmenu != NULL) DestroyMenu(prevmenu)\<close>.\<close>

definition destroy_prevmenu :: "native_menu option \<Rightarrow> tray_state \<Rightarrow> tray_state" where
  "destroy_prevmenu prevmenu s =
     (case prevmenu of None \<Rightarrow> s | Some pm \<Rightarrow> emit (Ev_DestroyMenu (handle pm)) s)"

text \<open>
  The states of one run of \<open>tray_update\<close>, from the state on entry to the state on
  return, one after each step; \<open>tray_update\<close> returns the last of them.
\<close>

definition tray_update_run :: "tray \<Rightarrow> tray_state \<Rightarrow> tray_state list" where
  "tray_update_run tr s0 =
     (let s1 = s0\<lparr>g_tray := Some tr\<rparr>;
          prevmenu = hmenu s1;
          s2 = update_menu tr s1;
          s3 = emit (Ev_SendMessage WM_INITMENUPOPUP) s2
      in case fetch_icon (icon tr) REGULAR s3 of
           (ic, s4) \<Rightarrow>
             (case update_icon_tip tr ic (nid s4) of
                (n, flags) \<Rightarrow>
                  (case update_info tr flags (s4\<lparr>nid := n\<rparr>) of
                     (s6, flags') \<Rightarrow>
                       (let s7 = update_apply tr flags' s6;
                            s8 = destroy_prevmenu prevmenu s7
                        in [s0, s1, s2, s3, s4, s4\<lparr>nid := n\<rparr>, s6, s7, s8]))))"

definition tray_update :: "tray \<Rightarrow> tray_state \<Rightarrow> tray_state" where
  "tray_update tr s = last (tray_update_run tr s)"

section \<open>The window procedure \<open>_tray_wnd_proc\<close>\<close>

definition HIWORD :: "64 word \<Rightarrow> WORD" where
  "HIWORD w = ucast (drop_bit 16 w)"

definition LOWORD :: "64 word \<Rightarrow> WORD" where
  "LOWORD w = ucast w"

text \<open>
  \<open>GetMenuItemInfoA(hmenu, cmd_id, FALSE, &item_info)\<close>: the system looks the command
  up in the menu and in its submenus and reports the first item that carries it.
\<close>

fun find_item :: "UINT \<Rightarrow> native_item list \<Rightarrow> native_item option" where
  "find_item c [] = None"
| "find_item c (Native_item w ty st td dat None # its) =
     (if w = c then Some (Native_item w ty st td dat None) else find_item c its)"
| "find_item c (Native_item w ty st td dat (Some (Native_menu h sits)) # its) =
     (case find_item c sits of
        Some r \<Rightarrow> Some r
      | None \<Rightarrow>
          if w = c then Some (Native_item w ty st td dat (Some (Native_menu h sits)))
          else find_item c its)"

definition GetMenuItemInfoA :: "native_menu option \<Rightarrow> UINT \<Rightarrow> native_item option" where
  "GetMenuItemInfoA hm c = (case hm of None \<Rightarrow> None | Some m \<Rightarrow> find_item c (items m))"

text \<open>
  \<open>SetMenuItemInfoA(hmenu, cmd_id, FALSE, &item_info)\<close> with \<open>fMask = MIIM_STATE\<close>: the
  state of that same item is replaced; \<open>None\<close> when no item carries the command.
\<close>

fun set_item_state :: "UINT \<Rightarrow> UINT \<Rightarrow> native_item list \<Rightarrow> native_item list option" where
  "set_item_state c v [] = None"
| "set_item_state c v (Native_item w ty st td dat None # its) =
     (if w = c then Some (Native_item w ty v td dat None # its)
      else map_option ((#) (Native_item w ty st td dat None)) (set_item_state c v its))"
| "set_item_state c v (Native_item w ty st td dat (Some (Native_menu h sits)) # its) =
     (case set_item_state c v sits of
        Some sits' \<Rightarrow> Some (Native_item w ty st td dat (Some (Native_menu h sits')) # its)
      | None \<Rightarrow>
          if w = c then Some (Native_item w ty v td dat (Some (Native_menu h sits)) # its)
          else map_option ((#) (Native_item w ty st td dat (Some (Native_menu h sits))))
                 (set_item_state c v its))"

definition SetMenuItemInfoA :: "native_menu option \<Rightarrow> UINT \<Rightarrow> UINT \<Rightarrow> native_menu option" where
  "SetMenuItemInfoA hm c v =
     (case hm of
        None \<Rightarrow> None
      | Some m \<Rightarrow>
          (case set_item_state c v (items m) of
             None \<Rightarrow> Some m
           | Some its \<Rightarrow> Some (Native_menu (handle m) its)))"

text \<open>Reading and writing the caller's record behind a back-reference.\<close>

fun node_at :: "tray_menu list \<Rightarrow> menu_ptr \<Rightarrow> tray_menu option" where
  "node_at [] p = None"
| "node_at (m # ms) [] = None"
| "node_at (m # ms) [0] = Some m"
| "node_at (m # ms) (0 # j # r) = (case submenu m of None \<Rightarrow> None | Some sm \<Rightarrow> node_at sm (j # r))"
| "node_at (m # ms) (Suc i # r) = node_at ms (i # r)"

fun node_update :: "(tray_menu \<Rightarrow> tray_menu) \<Rightarrow> tray_menu list \<Rightarrow> menu_ptr \<Rightarrow> tray_menu list" where
  "node_update f [] p = []"
| "node_update f (m # ms) [] = m # ms"
| "node_update f (m # ms) [0] = f m # ms"
| "node_update f (Tray_menu t d c cx k ctx sub # ms) (0 # j # r) =
     Tray_menu t d c cx k ctx (case sub of None \<Rightarrow> None | Some sm \<Rightarrow> Some (node_update f sm (j # r))) # ms"
| "node_update f (m # ms) (Suc i # r) = m # node_update f ms (i # r)"

definition deref :: "tray_state \<Rightarrow> menu_ptr \<Rightarrow> tray_menu option" where
  "deref s p =
     (case g_tray s of
        None \<Rightarrow> None
      | Some tr \<Rightarrow> (case menu tr of None \<Rightarrow> None | Some ms \<Rightarrow> node_at ms p))"

definition store :: "(tray_menu \<Rightarrow> tray_menu) \<Rightarrow> menu_ptr \<Rightarrow> tray_state \<Rightarrow> tray_state" where
  "store f p s =
     (case g_tray s of
        None \<Rightarrow> s
      | Some tr \<Rightarrow>
          (case menu tr of
             None \<Rightarrow> s
           | Some ms \<Rightarrow> s\<lparr>g_tray := Some (tr\<lparr>menu := Some (node_update f ms p)\<rparr>)\<rparr>))"

text \<open>\<open>menu->checked = !menu->checked\<close>.\<close>

definition toggle_checked :: "tray_menu \<Rightarrow> tray_menu" where
  "toggle_checked m =
     Tray_menu (menu_text m) (disabled m) (if checked m = 0 then 1 else 0) (checkbox m)
       (cb m) (menu_context m) (submenu m)"

text \<open>
  The \<open>WM_COMMAND\<close> case. A back-reference always leads to a record of the tree the
  menu was built from; should it lead nowhere, nothing is done.
\<close>

definition wm_command :: "WPARAM \<Rightarrow> tray_state \<Rightarrow> tray_state" where
  "wm_command wparam s =
     (if HIWORD wparam = 0 then
        (let cmd_id = (ucast (LOWORD wparam) :: UINT) in
         case GetMenuItemInfoA (hmenu s) cmd_id of
           None \<Rightarrow> s
         | Some item_info \<Rightarrow>
             (case dwItemData item_info of
                None \<Rightarrow> s
              | Some p \<Rightarrow>
                  (case deref s p of
                     None \<Rightarrow> s
                   | Some m \<Rightarrow>
                       (let s1 = (if checkbox m \<noteq> 0
                                  then (store toggle_checked p s)
                                         \<lparr>hmenu := SetMenuItemInfoA (hmenu s) cmd_id
                                            (if checked (toggle_checked m) \<noteq> 0 then MFS_CHECKED else 0)\<rparr>
                                  else s)
                        in case deref s1 p of
                             None \<Rightarrow> s1
                           | Some m1 \<Rightarrow>
                               (case cb m1 of
                                  None \<Rightarrow> s1
                                | Some k \<Rightarrow> emit (Ev_menu_cb k m1) s1)))))
      else s)"

text \<open>
  \<open>DestroyWindow\<close> on the tray window: the system sends \<open>WM_DESTROY\<close> to the window
  procedure before it returns, and that case posts the quit message.
\<close>

definition DestroyWindow :: "nat \<Rightarrow> tray_state \<Rightarrow> tray_state" where
  "DestroyWindow hw s = emit Ev_PostQuitMessage (emit (Ev_DestroyWindow hw) s)"

text \<open>The handling of the broadcast that announces a restarted shell: lines 167 to 184.\<close>

definition taskbar_created :: "tray_state \<Rightarrow> tray_state" where
  "taskbar_created s =
     (let s1 = s\<lparr>nid := (nid s)\<lparr>uFlags := NIF_MESSAGE OR NIF_GUID,
                                  uCallbackMessage := WM_TRAY_CALLBACK_MESSAGE\<rparr>\<rparr>;
          s2 = snd (Shell_NotifyIconA NIM_ADD s1);
          s3 = s2\<lparr>nid := (nid s2)\<lparr>uVersion := NOTIFYICON_VERSION_4\<rparr>\<rparr>;
          s4 = snd (Shell_NotifyIconA NIM_SETVERSION s3)
      in case g_tray s4 of
           None \<Rightarrow> s4
         | Some tr \<Rightarrow>
             (let prevmenu = hmenu s4;
                  s5 = update_menu tr s4;
                  s6 = destroy_prevmenu prevmenu s5
              in tray_update tr s6))"

text \<open>
  \<open>_tray_wnd_proc(hwnd, msg, wparam, lparam)\<close>; \<open>hw\<close> is its first parameter. The
  \<open>switch\<close> returns from the cases it handles; everything else reaches the test for
  the shell-restart message and then \<open>DefWindowProc\<close>.
\<close>

definition tray_wnd_proc :: "nat \<Rightarrow> UINT \<Rightarrow> WPARAM \<Rightarrow> LPARAM \<Rightarrow> tray_state \<Rightarrow> tray_state" where
  "tray_wnd_proc hw msg wparam lparam s =
     (if msg = WM_CLOSE then DestroyWindow hw s
      else if msg = WM_DESTROY then emit Ev_PostQuitMessage s
      else if msg = WM_COMMAND then wm_command wparam s
      else if msg = WM_TRAY_CALLBACK_MESSAGE \<and>
              ucast (LOWORD lparam) \<in> {WM_LBUTTONUP, WM_RBUTTONUP, WM_CONTEXTMENU} then
        (let s1 = emit (Ev_SetForegroundWindow hw) s;
             s2 = emit (Ev_TrackPopupMenu (map_option handle (hmenu s1))) s1;
             cmd = os_TrackPopupMenu (os s2);
             s3 = (if cmd \<noteq> 0 then wm_command (ucast cmd) s2 else s2)
         in emit (Ev_PostMessage WM_NULL) s3)
      else if msg = WM_TRAY_CALLBACK_MESSAGE \<and> ucast (LOWORD lparam) = NIN_BALLOONUSERCLICK then
        (case g_notification_cb s of
           None \<Rightarrow> s
         | Some k \<Rightarrow> emit (Ev_notification_cb k) s)
      else if msg = wm_taskbarcreated s then taskbar_created s
      else emit (Ev_DefWindowProc msg) s)"

section \<open>\<open>tray_init\<close>, \<open>tray_loop\<close> and \<open>tray_exit\<close>\<close>

text \<open>\<open>tray_init\<close> returns 0 or -1 together with the state it leaves.\<close>

definition tray_init :: "tray \<Rightarrow> tray_state \<Rightarrow> int \<times> tray_state" where
  "tray_init tr s0 =
     (let s1 = s0\<lparr>wm_taskbarcreated := os_RegisterWindowMessageA (os s0)\<rparr>;
          s2 = init_icon_cache (allIconPaths tr) (iconPathCount tr) s1;
          s3 = emit Ev_RegisterClassExA s2
      in if \<not> os_RegisterClassExA (os s3)
         then (-1, tray_log_last_error TRAY_LOG_ERROR ''RegisterClassExA'' s3)
         else
           (case alloc (os_CreateWindowExA (os s3)) (emit Ev_CreateWindowExA s3) of
              (hw, s4) \<Rightarrow>
                (let s5 = s4\<lparr>hwnd := hw\<rparr> in
                 case hw of
                   None \<Rightarrow>
                     (-1, emit Ev_UnregisterClassA
                            (tray_log_last_error TRAY_LOG_ERROR ''CreateWindowExA'' s5))
                 | Some w \<Rightarrow>
                     (let s6 = emit (Ev_UpdateWindow w) s5;
                          s7 = s6\<lparr>nid := nid_zero\<lparr>hWnd := Some w, uID := 1,
                                     uFlags := NIF_MESSAGE OR NIF_GUID,
                                     uCallbackMessage := WM_TRAY_CALLBACK_MESSAGE\<rparr>\<rparr>
                      in case Shell_NotifyIconA NIM_ADD s7 of
                           (ok, s8) \<Rightarrow>
                             if \<not> ok then
                               (-1, emit Ev_UnregisterClassA
                                      ((DestroyWindow w
                                         (tray_log_last_error TRAY_LOG_ERROR
                                            ''Shell_NotifyIconA(NIM_ADD)'' s8))\<lparr>hwnd := None\<rparr>))
                             else
                               (let s9 = s8\<lparr>nid := (nid s8)\<lparr>uVersion := NOTIFYICON_VERSION_4\<rparr>\<rparr>
                                in case Shell_NotifyIconA NIM_SETVERSION s9 of
                                     (ok2, s10) \<Rightarrow>
                                       (0, tray_update tr
                                             (if ok2 then s10
                                              else tray_log_last_error TRAY_LOG_WARNING
                                                     ''Shell_NotifyIconA(NIM_SETVERSION)'' s10)))))))"

text \<open>\<open>MSG\<close>: the window a message is for, and the message.\<close>

record MSG =
  msg_hwnd :: "nat option"
  message :: UINT
  wParam :: WPARAM
  lParam :: LPARAM

text \<open>
  \<open>DispatchMessageA\<close> calls the window procedure of the window the message is for;
  the tray window is the only window of the library.
\<close>

definition DispatchMessageA :: "MSG \<Rightarrow> tray_state \<Rightarrow> tray_state" where
  "DispatchMessageA m s =
     (case msg_hwnd m of
        None \<Rightarrow> s
      | Some w \<Rightarrow>
          if hwnd s = Some w then tray_wnd_proc w (message m) (wParam m) (lParam m) s else s)"

definition translate_dispatch :: "MSG \<Rightarrow> tray_state \<Rightarrow> tray_state" where
  "translate_dispatch m s = DispatchMessageA m (emit (Ev_TranslateMessage (message m)) s)"

text \<open>
  The non-blocking branch: \<open>pending\<close> is the sequence of messages that \<open>PeekMessageA\<close>
  hands out, one per call, until it reports that the queue is empty.
\<close>

fun drain :: "MSG list \<Rightarrow> tray_state \<Rightarrow> int \<times> tray_state" where
  "drain [] s = (0, s)"
| "drain (m # pending) s =
     (if message m = WM_QUIT then (-1, s) else drain pending (translate_dispatch m s))"

text \<open>
  \<open>tray_loop(blocking)\<close>. In the blocking branch \<open>r\<close> and \<open>m\<close> are what \<open>GetMessageA\<close>
  returns once it stops waiting: \<open>r\<close> is positive with a message \<open>m\<close>, 0 for \<open>WM_QUIT\<close>
  and -1 for an error.
\<close>

definition tray_loop :: "int \<Rightarrow> int \<Rightarrow> MSG \<Rightarrow> MSG list \<Rightarrow> tray_state \<Rightarrow> int \<times> tray_state" where
  "tray_loop blocking r m pending s =
     (if blocking \<noteq> 0 then
        (if r \<le> 0 then
           (-1, if r = -1 then tray_log_last_error TRAY_LOG_ERROR ''GetMessageA'' s else s)
         else (0, translate_dispatch m s))
      else drain pending s)"

text \<open>\<open>tray_exit\<close>.\<close>

definition tray_exit :: "tray_state \<Rightarrow> tray_state" where
  "tray_exit s =
     (let s1 = destroy_icon_cache (snd (Shell_NotifyIconA NIM_DELETE s));
          s2 = destroy_prevmenu (hmenu s1) s1
      in emit Ev_UnregisterClassA (emit Ev_PostQuitMessage s2))"

text \<open>
  A two-level example: the item \<open>A\<close> owns a submenu with the single item \<open>B\<close>; both
  arrays end with the \<open>NULL\<close>-text record.
\<close>

definition sentinel :: tray_menu where
  "sentinel = Tray_menu None 0 0 0 None 0 None"

definition menu_A_B :: "tray_menu list" where
  "menu_A_B =
     [Tray_menu (Some ''A'') 0 0 0 None 0
        (Some [Tray_menu (Some ''B'') 0 0 0 None 0 None, sentinel]),
      sentinel]"

section \<open>Auxiliary notions and example inputs\<close>

text \<open>The state in which \<open>tray_update\<close> looks the icon up: after the menu is rebuilt.\<close>

definition after_menu :: "tray \<Rightarrow> tray_state \<Rightarrow> tray_state" where
  "after_menu tr s = emit (Ev_SendMessage WM_INITMENUPOPUP) (update_menu tr (s\<lparr>g_tray := Some tr\<rparr>))"

text \<open>The three text buffers have the sizes that shellapi.h declares.\<close>

definition nid_sized :: "NOTIFYICONDATAA \<Rightarrow> bool" where
  "nid_sized n = (length (szTip n) = 128 \<and> length (szInfo n) = 256 \<and> length (szInfoTitle n) = 64)"

text \<open>A system in which every call succeeds and the user dismisses the menu.\<close>

definition os_all_ok :: os_model where
  "os_all_ok = \<lparr>os_RegisterWindowMessageA = 0xC123, os_RegisterClassExA = True,
     os_CreateWindowExA = True, os_Shell_NotifyIconA = (\<lambda>m. True),
     os_ExtractIconExA = (\<lambda>p large. True), os_LoadImageA = (\<lambda>p. True),
     os_TrackPopupMenu = 0\<rparr>"

text \<open>The process before \<open>tray_init\<close>: the file-scope variables as they are initialised.\<close>

definition state0 :: tray_state where
  "state0 = \<lparr>nid = nid_zero, hwnd = None, hmenu = None, g_notification_cb = None,
     wm_taskbarcreated = 0, g_tray = None, icon_infos = [], g_tray_log_cb = None,
     os = os_all_ok, next_handle = 1, trace = []\<rparr>"

text \<open>A description whose three texts are longer than their buffers.\<close>

definition tray_long :: tray where
  "tray_long = \<lparr>icon = ''a.ico'', tooltip = Some (replicate 200 CHR ''t''),
     notification_icon = None, notification_text = Some (replicate 300 CHR ''x''),
     notification_title = Some (replicate 100 CHR ''y''), notification_cb = None,
     menu = None, iconPathCount = 0, allIconPaths = []\<rparr>"

text \<open>
  The events of one run of \<open>tray_update\<close>, step by step: the decoding calls of a cache
  miss, the loading of the notification image, the warning after a failed
  \<open>NIM_MODIFY\<close>, and the destruction of the previous menu.
\<close>

definition fetch_events :: "string \<Rightarrow> tray_state \<Rightarrow> event list" where
  "fetch_events path s =
     (case find (\<lambda>info. info_path info = c_str path) (icon_infos s) of
        Some info \<Rightarrow> []
      | None \<Rightarrow> [Ev_ExtractIconExA path True, Ev_ExtractIconExA path False, Ev_LoadImageA path])"

definition info_events :: "tray \<Rightarrow> event list" where
  "info_events tr =
     (if (has_chars (notification_title tr) \<or> has_chars (notification_text tr)) \<and>
         has_chars (notification_icon tr)
      then [Ev_LoadImageA (the (notification_icon tr))] else [])"

definition modify_log_events :: "tray_state \<Rightarrow> event list" where
  "modify_log_events s =
     (if os_Shell_NotifyIconA (os s) NIM_MODIFY then []
      else case g_tray_log_cb s of
             None \<Rightarrow> []
           | Some k \<Rightarrow> [Ev_log_cb k TRAY_LOG_WARNING ''Shell_NotifyIconA(NIM_MODIFY)''])"

definition destroy_events :: "native_menu option \<Rightarrow> event list" where
  "destroy_events prevmenu = (case prevmenu of None \<Rightarrow> [] | Some pm \<Rightarrow> [Ev_DestroyMenu (handle pm)])"

definition tray_update_events :: "tray \<Rightarrow> tray_state \<Rightarrow> event list" where
  "tray_update_events tr s =
     [Ev_SendMessage WM_INITMENUPOPUP] @ fetch_events (icon tr) s @ info_events tr @
     [Ev_Shell_NotifyIconA NIM_MODIFY (nid (tray_update tr s))] @ modify_log_events s @
     destroy_events (hmenu s)"

text \<open>The calls of the caller's menu and notification routines.\<close>

fun is_caller_cb :: "event \<Rightarrow> bool" where
  "is_caller_cb (Ev_menu_cb k m) = True"
| "is_caller_cb (Ev_notification_cb k) = True"
| "is_caller_cb e = False"

text \<open>A description with a tooltip, and the same description with the tooltip omitted.\<close>

definition tray_tip :: tray where
  "tray_tip = \<lparr>icon = ''a.ico'', tooltip = Some ''Hi'',
     notification_icon = None, notification_text = None,
     notification_title = None, notification_cb = None,
     menu = None, iconPathCount = 0, allIconPaths = []\<rparr>"

definition tray_no_tip :: tray where
  "tray_no_tip = tray_tip\<lparr>tooltip := None\<rparr>"

text \<open>
  The menu handles destroyed so far, read off the trace. The active menu is valid when
  \<open>hmenu\<close> is not \<open>NULL\<close> and its handle has not been destroyed. Handles are handed
  out in increasing order, so in a state reached by the library every handle in use
  or destroyed lies below the next one.
\<close>

fun destroys :: "event \<Rightarrow> nat list" where
  "destroys (Ev_DestroyMenu h) = [h]"
| "destroys e = []"

definition destroyed_in :: "event list \<Rightarrow> nat set" where
  "destroyed_in evs = set (concat (map destroys evs))"

definition destroyed_menus :: "tray_state \<Rightarrow> nat set" where
  "destroyed_menus s = destroyed_in (trace s)"

definition menu_valid :: "tray_state \<Rightarrow> bool" where
  "menu_valid s = (case hmenu s of None \<Rightarrow> False | Some m \<Rightarrow> handle m \<notin> destroyed_menus s)"

definition handles_below :: "tray_state \<Rightarrow> bool" where
  "handles_below s =
     ((\<forall>h \<in> destroyed_menus s. h < next_handle s) \<and>
      (case hmenu s of None \<Rightarrow> True | Some m \<Rightarrow> handle m < next_handle s))"

text \<open>The menu that \<open>tray_update\<close> builds in a given state.\<close>

definition new_menu :: "tray \<Rightarrow> tray_state \<Rightarrow> native_menu" where
  "new_menu tr s = fst (tray_menu_build [] (menu tr) (ID_TRAY_FIRST, next_handle s))"

text \<open>
  The state in which the shell-restart handling re-runs \<open>tray_update\<close>: the icon is
  registered again, the version is set, the menu is rebuilt and the previous one
  destroyed.
\<close>

definition restart_state :: "tray \<Rightarrow> tray_state \<Rightarrow> tray_state" where
  "restart_state tr s =
     (let n1 = (nid s)\<lparr>uFlags := NIF_MESSAGE OR NIF_GUID, uCallbackMessage := WM_TRAY_CALLBACK_MESSAGE\<rparr>;
          n2 = n1\<lparr>uVersion := NOTIFYICON_VERSION_4\<rparr>;
          s4 = s\<lparr>nid := n2, trace := trace s @ [Ev_Shell_NotifyIconA NIM_ADD n1,
                                                  Ev_Shell_NotifyIconA NIM_SETVERSION n2]\<rparr>
      in destroy_prevmenu (hmenu s) (update_menu tr s4))"

text \<open>
  The description of the usual usage scenario: an icon, the tooltip \<open>Hi\<close>, and
  the menu \<open>Quit\<close>, separator, \<open>Toggle\<close> (an unchecked checkbox); the caller's routines
  are numbered 1 (\<open>quit\<close>) and 2 (\<open>onToggle\<close>).
\<close>

definition menu_scenario :: "tray_menu list" where
  "menu_scenario =
     [Tray_menu (Some ''Quit'') 0 0 0 (Some 1) 0 None,
      Tray_menu (Some ''-'') 0 0 0 None 0 None,
      Tray_menu (Some ''Toggle'') 0 0 1 (Some 2) 0 None,
      sentinel]"

definition tray_scenario :: tray where
  "tray_scenario = \<lparr>icon = ''a.ico'', tooltip = Some ''Hi'',
     notification_icon = None, notification_text = None,
     notification_title = None, notification_cb = None,
     menu = Some menu_scenario, iconPathCount = 1, allIconPaths = [''a.ico'']\<rparr>"

text \<open>
  A shutdown signal is observed by \<open>tray_loop\<close> when \<open>GetMessageA\<close> returns 0 (it has
  retrieved \<open>WM_QUIT\<close>) in the blocking branch, or when one of the messages handed out
  by \<open>PeekMessageA\<close> is \<open>WM_QUIT\<close> in the other.
\<close>

definition quit_observed :: "int \<Rightarrow> int \<Rightarrow> MSG list \<Rightarrow> bool" where
  "quit_observed blocking r pending =
     (if blocking \<noteq> 0 then r = 0 else list_ex (\<lambda>m. message m = WM_QUIT) pending)"

text \<open>Two thread messages: a no-op and the quit message.\<close>

definition msg_null :: MSG where
  "msg_null = \<lparr>msg_hwnd = None, message = WM_NULL, wParam = 0, lParam = 0\<rparr>"

definition msg_quit :: MSG where
  "msg_quit = \<lparr>msg_hwnd = None, message = WM_QUIT, wParam = 0, lParam = 0\<rparr>"

text \<open>
  The paths held by the icon cache, in order, and sequences of the two operations that
  change the cache. An initialisation is duplicate-free when the paths it is given are
  pairwise different strings.
\<close>

definition cache_paths :: "tray_state \<Rightarrow> string list" where
  "cache_paths s = map info_path (icon_infos s)"

datatype cache_op = Op_init "string list" int | Op_fetch string IconType

fun run_cache_ops :: "cache_op list \<Rightarrow> tray_state \<Rightarrow> tray_state" where
  "run_cache_ops [] s = s"
| "run_cache_ops (Op_init paths n # ops) s = run_cache_ops ops (init_icon_cache paths n s)"
| "run_cache_ops (Op_fetch path t # ops) s = run_cache_ops ops (snd (fetch_icon path t s))"

fun init_distinct :: "cache_op \<Rightarrow> bool" where
  "init_distinct (Op_init paths n) = distinct (map c_str (take (nat n) paths))"
| "init_distinct (Op_fetch path t) = True"

text \<open>
  A record that the builder turns into an item: its text is neither \<open>NULL\<close> nor the
  separator text. The back-references of a native menu are sound for a tree when each
  of them leads to such a record of the tree; the state is soundly bound when that
  holds for the active menu and the tree of the description on record.
\<close>

definition is_item :: "tray_menu \<Rightarrow> bool" where
  "is_item m = (menu_text m \<noteq> None \<and> menu_text m \<noteq> Some ''-'')"

definition refs_ok :: "tray_menu list option \<Rightarrow> native_menu \<Rightarrow> bool" where
  "refs_ok mo hm =
     list_all (\<lambda>(w, p). case mo of
                          None \<Rightarrow> False
                        | Some ms \<Rightarrow> (case node_at ms p of None \<Rightarrow> False | Some m \<Rightarrow> is_item m))
       (menu_bindings hm)"

definition bound_ok :: "tray_state \<Rightarrow> bool" where
  "bound_ok s =
     (case hmenu s of
        None \<Rightarrow> True
      | Some hm \<Rightarrow> refs_ok (case g_tray s of None \<Rightarrow> None | Some tr \<Rightarrow> menu tr) hm)"

text \<open>The record behind a back-reference after one dispatch of its command.\<close>

definition dispatched :: "tray_menu \<Rightarrow> tray_menu" where
  "dispatched m = (if checkbox m \<noteq> 0 then toggle_checked m else m)"

text \<open>A checkbox whose \<open>checked\<close> field holds 2, as the only item of a menu.\<close>

definition menu_checked2 :: "tray_menu list" where
  "menu_checked2 = [Tray_menu (Some ''Toggle'') 0 2 1 (Some 2) 0 None, sentinel]"

definition tray_checked2 :: tray where
  "tray_checked2 = tray_scenario\<lparr>menu := Some menu_checked2\<rparr>"

text \<open>
  A step of the library from \<open>s\<close> to \<open>s'\<close> keeps the binding sound and calls menu
  callbacks only with item records.
\<close>

definition step_ok :: "tray_state \<Rightarrow> tray_state \<Rightarrow> bool" where
  "step_ok s s' =
     (bound_ok s' \<and>
      (\<exists>evs. trace s' = trace s @ evs \<and>
         (\<forall>e \<in> set evs. \<forall>k m. e = Ev_menu_cb k m \<longrightarrow> is_item m)))"

text \<open>
  A system in which only the file \<open>a.ico\<close> decodes as an icon, and a description that
  names the icon \<open>b.ico\<close> and has a notification title but no notification icon.
\<close>

definition os_only_a :: os_model where
  "os_only_a = os_all_ok\<lparr>os_ExtractIconExA := (\<lambda>p large. p = ''a.ico'')\<rparr>"

definition tray_b_title :: tray where
  "tray_b_title = \<lparr>icon = ''b.ico'', tooltip = None,
     notification_icon = None, notification_text = None,
     notification_title = Some ''T'', notification_cb = None,
     menu = None, iconPathCount = 0, allIconPaths = []\<rparr>"

text \<open>
  Whether \<open>tray_update\<close> has a notification to show, and whether it loads an image of
  its own for it.
\<close>

definition has_info :: "tray \<Rightarrow> bool" where
  "has_info tr = (has_chars (notification_title tr) \<or> has_chars (notification_text tr))"

definition loads_image :: "tray \<Rightarrow> tray_state \<Rightarrow> bool" where
  "loads_image tr s =
     (has_chars (notification_icon tr) \<and> os_LoadImageA (os s) (the (notification_icon tr)))"

section \<open>Properties of the menu builder\<close>

lemma number_append:
  "number idc (a @ b) = number idc a @ number (idc + of_nat (length a)) b"
  by (induction a arbitrary: idc) (auto simp: algebra_simps)

text \<open>
  One pass of the builder binds, in post-order, consecutive counter values to the
  records it visits and returns the counter advanced by the number of records.
\<close>

lemma build_loop_bindings:
  "menu_bindings (fst (tray_menu_build pre m st)) = number (fst st) (slots_of pre m) \<and>
   fst (snd (tray_menu_build pre m st)) = fst st + of_nat (length (slots_of pre m))"
  "concat (map item_bindings (fst (tray_menu_loop pre i ms st))) = number (fst st) (slots pre i ms) \<and>
   fst (snd (tray_menu_loop pre i ms st)) = fst st + of_nat (length (slots pre i ms))"
proof (induction pre m st and pre i ms st rule: tray_menu_build_tray_menu_loop.induct)
  case (1 pre idc nh)
  then show ?case by (simp add: slots_of_def)
next
  case (2 pre ms idc nh)
  then show ?case by (auto split: prod.splits simp: slots_of_def)
next
  case (3 pre i idc nh)
  then show ?case by simp
next
  case (4 pre i d c cx k ctx sub ms idc nh)
  then show ?case by simp
next
  case (5 pre i t d c cx k ctx sub ms idc nh)
  show ?case
  proof (cases "t = ''-''")
    case True
    with 5(1) show ?thesis
      by (auto split: prod.splits simp: separator_item_def algebra_simps)
  next
    case False
    show ?thesis
    proof (cases sub)
      case None
      with False 5(3)[of None "(idc, nh)" idc nh] show ?thesis
        by (auto split: prod.splits simp: algebra_simps)
    next
      case (Some sm)
      obtain h idc1 nh1 where b: "tray_menu_build (pre @ [i]) (Some sm) (idc, nh) = (h, idc1, nh1)"
        by (metis prod_cases3)
      show ?thesis
        using False Some b 5(2)[OF False Some] 5(3)[OF False, of "Some h" "(idc1, nh1)" idc1 nh1]
        by (auto split: prod.splits simp: number_append algebra_simps slots_of_def)
    qed
  qed
qed

lemma number_mem:
  "(w, p) \<in> set (number idc sl) \<Longrightarrow> \<exists>k < length sl. w = idc + of_nat k \<and> sl ! k = (p, True)"
proof (induction sl arbitrary: idc)
  case Nil
  then show ?case by simp
next
  case (Cons a sl)
  obtain q b where a: "a = (q, b)" by (cases a)
  from Cons.prems a consider "w = idc \<and> p = q \<and> b" | "(w, p) \<in> set (number (idc + 1) sl)"
    by (auto split: if_splits)
  then show ?case
  proof cases
    case 1
    then show ?thesis using a by (intro exI[of _ 0]) simp
  next
    case 2
    from Cons.IH[OF 2] obtain k where "k < length sl" "w = idc + 1 + of_nat k" "sl ! k = (p, True)"
      by blast
    then show ?thesis by (intro exI[of _ "Suc k"]) (simp add: algebra_simps)
  qed
qed

lemma number_snd: "map snd (number idc sl) = map fst (filter snd sl)"
  by (induction sl arbitrary: idc) auto

lemma word_less_add_of_nat:
  fixes idc :: UINT
  assumes "unat idc + k < 2 ^ 32" "0 < k"
  shows "idc < idc + of_nat k"
proof -
  have "k < 2 ^ 32" using assms by simp
  then have "unat (idc + of_nat k) = unat idc + k"
    using assms by (simp add: unat_word_ariths unat_of_nat)
  then show ?thesis using assms by (simp add: word_less_nat_alt)
qed

lemma number_sorted:
  "unat idc + length sl \<le> 2 ^ 32 \<Longrightarrow> sorted_wrt (<) (map fst (number idc sl))"
proof (induction sl arbitrary: idc)
  case Nil
  then show ?case by simp
next
  case (Cons a sl)
  obtain q b where a: "a = (q, b)" by (cases a)
  have IH: "sorted_wrt (<) (map fst (number (idc + 1) sl))"
  proof (cases sl)
    case Nil
    then show ?thesis by simp
  next
    case (Cons b sl')
    then have lt: "unat idc + 1 < 2 ^ 32" using Cons.prems by simp
    then have u1: "unat (idc + 1) = unat idc + 1"
      by (simp add: unat_word_ariths)
    show ?thesis
      using Cons.IH[of "idc + 1"] Cons.prems u1 by simp
  qed
  have "idc < w" if "(w, p) \<in> set (number (idc + 1) sl)" for w p
  proof -
    from number_mem[OF that] obtain k where k: "k < length sl" "w = idc + 1 + of_nat k" by blast
    then have "w = idc + of_nat (Suc k)" by (simp add: algebra_simps)
    moreover have "unat idc + Suc k < 2 ^ 32" using k Cons.prems by simp
    ultimately show ?thesis using word_less_add_of_nat[of idc "Suc k"] by simp
  qed
  then show ?case using IH a by (auto split: if_splits)
qed

lemma sorted_wrt_less_distinct:
  fixes xs :: "UINT list"
  shows "sorted_wrt (<) xs \<Longrightarrow> distinct xs"
  by (induction xs) auto

text \<open>
  C1 (as the code has it). One call of \<open>_tray_menu\<close> with the counter at
  \<open>ID_TRAY_FIRST\<close> = 1000 hands out the consecutive values 1000, 1001, ... in
  post-order: the records of a submenu come before the record that owns it, and a
  separator uses up a value without being bound. The bound records are exactly the
  visited records that are not separators; the counter ends at 1000 plus the number
  of visited records. As long as the counter does not wrap around 32 bits, the
  identifiers are strictly increasing in that order and pairwise distinct.
\<close>

theorem tray_menu_ids_postorder:
  "menu_bindings (fst (tray_menu_build [] m (ID_TRAY_FIRST, nh))) =
     number ID_TRAY_FIRST (slots_of [] m) \<and>
   map snd (menu_bindings (fst (tray_menu_build [] m (ID_TRAY_FIRST, nh)))) =
     map fst (filter snd (slots_of [] m)) \<and>
   fst (snd (tray_menu_build [] m (ID_TRAY_FIRST, nh))) =
     ID_TRAY_FIRST + of_nat (length (slots_of [] m)) \<and>
   (unat ID_TRAY_FIRST + length (slots_of [] m) \<le> 2 ^ 32 \<longrightarrow>
      sorted_wrt (<) (map fst (menu_bindings (fst (tray_menu_build [] m (ID_TRAY_FIRST, nh))))) \<and>
      distinct (map fst (menu_bindings (fst (tray_menu_build [] m (ID_TRAY_FIRST, nh))))))"
proof -
  let ?hm = "fst (tray_menu_build [] m (ID_TRAY_FIRST, nh))"
  have b: "menu_bindings ?hm = number ID_TRAY_FIRST (slots_of [] m)"
    and c: "fst (snd (tray_menu_build [] m (ID_TRAY_FIRST, nh))) =
              ID_TRAY_FIRST + of_nat (length (slots_of [] m))"
    using build_loop_bindings(1)[of "[]" m "(ID_TRAY_FIRST, nh)"] by simp_all
  have s: "sorted_wrt (<) (map fst (menu_bindings ?hm))"
    if "unat ID_TRAY_FIRST + length (slots_of [] m) \<le> 2 ^ 32"
    using that b number_sorted by simp
  show ?thesis
    using b c s sorted_wrt_less_distinct by (simp add: number_snd)
qed

theorem tray_menu_ids_postorder_witness:
  "unat ID_TRAY_FIRST + length (slots_of [] (Some menu_A_B)) \<le> 2 ^ 32 \<and>
   menu_bindings (fst (tray_menu_build [] (Some menu_A_B) (ID_TRAY_FIRST, 0))) =
     [(1000, [0, 0]), (1001, [0])] \<and>
   sorted_wrt (<) (map fst (menu_bindings (fst (tray_menu_build [] (Some menu_A_B) (ID_TRAY_FIRST, 0)))))"
proof -
  have l: "slots_of [] (Some menu_A_B) = [([0, 0], True), ([0], True)]"
    by (simp add: slots_of_def menu_A_B_def sentinel_def)
  have h: "unat ID_TRAY_FIRST + length (slots_of [] (Some menu_A_B)) \<le> 2 ^ 32"
    by (simp add: l ID_TRAY_FIRST_def)
  show ?thesis
    using h tray_menu_ids_postorder[of "Some menu_A_B" 0] by (simp add: l ID_TRAY_FIRST_def)
qed

text \<open>
  C1 as stated fails: listed in pre-order (\<open>A\<close> before its child \<open>B\<close>), the identifiers
  of \<open>menu_A_B\<close> are 1001 then 1000, which is not increasing; the first record in
  pre-order does not get the base value.
\<close>

theorem tray_menu_ids_not_preorder:
  "ids_along (fst (tray_menu_build [] (Some menu_A_B) (ID_TRAY_FIRST, 0)))
     (map fst (slots_preorder [] 0 menu_A_B)) = [1001, 1000] \<and>
   \<not> sorted_wrt (<) (ids_along (fst (tray_menu_build [] (Some menu_A_B) (ID_TRAY_FIRST, 0)))
     (map fst (slots_preorder [] 0 menu_A_B)))"
  by (simp add: ids_along_def id_of_def List.map_filter_simps menu_A_B_def sentinel_def ID_TRAY_FIRST_def)

section \<open>Copies into the fixed-size buffers\<close>

lemma c_str_no_NUL: "NUL \<notin> set (c_str s)"
  unfolding c_str_def by (induction s) auto

lemma c_str_terminated: "NUL \<notin> set a \<Longrightarrow> c_str (a @ NUL # b) = a"
  unfolding c_str_def by (induction a) auto

lemma c_str_update_NUL:
  "c_str (xs[k := NUL]) = (if k < length (c_str xs) then take k (c_str xs) else c_str xs)"
  unfolding c_str_def
proof (induction xs arbitrary: k)
  case Nil
  then show ?case by simp
next
  case (Cons a xs)
  then show ?case by (cases k) auto
qed

lemma c_str_zero: "c_str (xs[0 := NUL]) = []"
  by (cases xs) (simp_all add: c_str_def)

lemma length_write_bytes:
  "length bytes \<le> length dst \<Longrightarrow> length (write_bytes dst bytes) = length dst"
  by (simp add: write_bytes_def)

lemma length_strncpy: "length (strncpy dst src (length dst)) = length dst"
  by (simp add: strncpy_def length_write_bytes)

lemma c_str_take_pad:
  assumes "NUL \<notin> set cs" "0 < m \<or> rest = []"
  shows "c_str (take n cs @ replicate m NUL @ rest) = take n cs"
proof (cases m)
  case 0
  with assms have "rest = []" by simp
  moreover have "\<forall>x\<in>set (take n cs). x \<noteq> NUL"
    using assms(1) by (metis in_set_takeD)
  ultimately show ?thesis using 0
    by (simp add: c_str_def takeWhile_eq_all_conv)
next
  case (Suc m')
  have "NUL \<notin> set (take n cs)" using assms(1) by (meson in_set_takeD)
  then show ?thesis using Suc c_str_terminated[of "take n cs" "replicate m' NUL @ rest"] by simp
qed

lemma strncpy_terminated:
  assumes "dst \<noteq> []"
  shows "c_str ((strncpy dst src (length dst))[length dst - 1 := NUL]) = take (length dst - 1) (c_str src)"
    and "NUL \<in> set ((strncpy dst src (length dst))[length dst - 1 := NUL])"
proof -
  let ?n = "length dst" and ?cs = "c_str src"
  have n: "0 < ?n" using assms by simp
  have eq: "strncpy dst src ?n = take ?n ?cs @ replicate (?n - length ?cs) NUL @ []"
    by (simp add: strncpy_def write_bytes_def)
  have "0 < ?n - length ?cs \<or> ([]::string) = []" by simp
  then have c: "c_str (strncpy dst src ?n) = take ?n ?cs"
    unfolding eq by (rule c_str_take_pad[OF c_str_no_NUL])
  show "c_str ((strncpy dst src ?n)[?n - 1 := NUL]) = take (?n - 1) ?cs"
    using n by (auto simp: c_str_update_NUL c min_def)
  have "?n - 1 < length (strncpy dst src ?n)" using n by (simp add: length_strncpy)
  then show "NUL \<in> set ((strncpy dst src ?n)[?n - 1 := NUL])"
    by (metis set_update_memI)
qed

lemma StringCchCopyA_ok:
  assumes "0 < length dst" "length dst \<le> STRSAFE_MAX_CCH"
  shows "length (StringCchCopyA dst (length dst) src) = length dst"
    and "c_str (StringCchCopyA dst (length dst) src) = take (length dst - 1) (c_str src)"
    and "NUL \<in> set (StringCchCopyA dst (length dst) src)"
proof -
  have nn: "NUL \<notin> set (take (length dst - 1) (c_str src))"
    using c_str_no_NUL by (meson in_set_takeD)
  have "min (length (c_str src)) (length dst - 1) + 1 \<le> length dst"
    using assms(1) by (cases dst) (auto simp: min_def)
  then show "length (StringCchCopyA dst (length dst) src) = length dst"
    using assms by (auto simp: StringCchCopyA_def length_write_bytes)
  show "c_str (StringCchCopyA dst (length dst) src) = take (length dst - 1) (c_str src)"
    using assms nn by (simp add: StringCchCopyA_def write_bytes_def c_str_terminated)
  show "NUL \<in> set (StringCchCopyA dst (length dst) src)"
    using assms by (simp add: StringCchCopyA_def write_bytes_def)
qed

lemma safe_copy_sz_ok:
  assumes "0 < length dst" "length dst \<le> STRSAFE_MAX_CCH"
  shows "length (safe_copy_sz dst (length dst) src) = length dst"
    and "c_str (safe_copy_sz dst (length dst) src) =
           (case src of None \<Rightarrow> [] | Some sr \<Rightarrow> take (length dst - 1) (c_str sr))"
    and "NUL \<in> set (safe_copy_sz dst (length dst) src)"
  using assms StringCchCopyA_ok[OF assms]
  by (auto simp: safe_copy_sz_def c_str_zero split: option.splits intro: set_update_memI)

section \<open>What \<open>tray_update\<close> leaves in \<open>nid\<close>\<close>

lemma tray_update_eq:
  "tray_update tr s0 =
     (case fetch_icon (icon tr) REGULAR
             (emit (Ev_SendMessage WM_INITMENUPOPUP) (update_menu tr (s0\<lparr>g_tray := Some tr\<rparr>))) of
        (ic, s4) \<Rightarrow>
          (case update_icon_tip tr ic (nid s4) of
             (n, flags) \<Rightarrow>
               (case update_info tr flags (s4\<lparr>nid := n\<rparr>) of
                  (s6, flags') \<Rightarrow> destroy_prevmenu (hmenu s0) (update_apply tr flags' s6))))"
  by (simp add: tray_update_def tray_update_run_def Let_def split: prod.splits)

lemma nid_emit [simp]: "nid (emit e s) = nid s"
  by (simp add: emit_def)

lemma nid_alloc [simp]: "nid (snd (alloc ok s)) = nid s"
  by (simp add: alloc_def)

lemma nid_log [simp]: "nid (tray_log_last_error l c s) = nid s"
  by (simp add: tray_log_last_error_def split: option.splits)

lemma nid_create_icon_info [simp]: "nid (snd (create_icon_info p s)) = nid s"
  by (simp add: create_icon_info_def alloc_def emit_def split: prod.splits)

lemma nid_fetch_icon [simp]: "nid (snd (fetch_icon p t s)) = nid s"
  by (simp add: fetch_icon_def create_icon_info_def alloc_def emit_def split: option.splits prod.splits)

lemma nid_update_menu [simp]: "nid (update_menu tr s) = nid s"
  by (simp add: update_menu_def split: prod.splits)

lemma nid_destroy_prevmenu [simp]: "nid (destroy_prevmenu pm s) = nid s"
  by (simp add: destroy_prevmenu_def split: option.splits)

lemma nid_update_apply [simp]: "nid (update_apply tr fl s) = (nid s)\<lparr>uFlags := fl\<rparr>"
  by (simp add: update_apply_def Shell_NotifyIconA_def split: prod.splits)


lemma nid_tray_update:
  "nid (tray_update tr s) =
     (let f = fetch_icon (icon tr) REGULAR (after_menu tr s);
          ni = update_icon_tip tr (fst f) (nid s);
          r = update_info tr (snd ni) ((snd f)\<lparr>nid := fst ni\<rparr>)
      in (nid (fst r))\<lparr>uFlags := snd r\<rparr>)"
  by (simp add: tray_update_eq case_prod_beta Let_def after_menu_def)

lemma snd_update_icon_tip:
  "snd (update_icon_tip tr ic n) =
     NIF_MESSAGE OR NIF_GUID OR (if ic \<noteq> None then NIF_ICON else 0) OR
     (if has_chars (tooltip tr) then NIF_TIP OR NIF_SHOWTIP else 0)"
  by (simp add: update_icon_tip_def Let_def or.assoc)

lemma snd_update_info:
  "snd (update_info tr fl s) =
     fl OR (if has_chars (notification_title tr) \<or> has_chars (notification_text tr) then NIF_INFO else 0)"
  by (simp add: update_info_def Let_def case_prod_beta)

lemma uFlags_tray_update:
  "uFlags (nid (tray_update tr s)) =
     NIF_MESSAGE OR NIF_GUID OR
     (if fst (fetch_icon (icon tr) REGULAR (after_menu tr s)) \<noteq> None then NIF_ICON else 0) OR
     (if has_chars (tooltip tr) then NIF_TIP OR NIF_SHOWTIP else 0) OR
     (if has_chars (notification_title tr) \<or> has_chars (notification_text tr) then NIF_INFO else 0)"
  by (simp add: nid_tray_update Let_def snd_update_icon_tip snd_update_info or.assoc)

lemma szTip_update_info [simp]: "szTip (nid (fst (update_info tr fl s))) = szTip (nid s)"
  by (simp add: update_info_def Let_def case_prod_beta alloc_def emit_def)

lemma szTip_tray_update:
  "szTip (nid (tray_update tr s)) =
     (if has_chars (tooltip tr)
      then (strncpy (szTip (nid s)) (the (tooltip tr)) (length (szTip (nid s))))
             [length (szTip (nid s)) - 1 := NUL]
      else (szTip (nid s))[0 := NUL])"
  by (simp add: nid_tray_update Let_def update_icon_tip_def case_prod_beta)

lemma szInfo_update_info:
  "szInfo (nid (fst (update_info tr fl s))) =
     (if has_chars (notification_title tr) \<or> has_chars (notification_text tr)
      then safe_copy_sz (szInfo (nid s)) (length (szInfo (nid s)))
             (if has_chars (notification_text tr) then notification_text tr else Some [])
      else (szInfo (nid s))[0 := NUL])"
  "szInfoTitle (nid (fst (update_info tr fl s))) =
     (if has_chars (notification_title tr) \<or> has_chars (notification_text tr)
      then safe_copy_sz (szInfoTitle (nid s)) (length (szInfoTitle (nid s)))
             (if has_chars (notification_title tr) then notification_title tr else Some [])
      else (szInfoTitle (nid s))[0 := NUL])"
  by (simp_all add: update_info_def Let_def case_prod_beta alloc_def emit_def)

lemma szInfo_update_icon_tip [simp]:
  "szInfo (fst (update_icon_tip tr ic n)) = szInfo n"
  "szInfoTitle (fst (update_icon_tip tr ic n)) = szInfoTitle n"
  by (simp_all add: update_icon_tip_def Let_def case_prod_beta)

lemma szInfo_tray_update:
  "szInfo (nid (tray_update tr s)) =
     (if has_chars (notification_title tr) \<or> has_chars (notification_text tr)
      then safe_copy_sz (szInfo (nid s)) (length (szInfo (nid s)))
             (if has_chars (notification_text tr) then notification_text tr else Some [])
      else (szInfo (nid s))[0 := NUL])"
  "szInfoTitle (nid (tray_update tr s)) =
     (if has_chars (notification_title tr) \<or> has_chars (notification_text tr)
      then safe_copy_sz (szInfoTitle (nid s)) (length (szInfoTitle (nid s)))
             (if has_chars (notification_title tr) then notification_title tr else Some [])
      else (szInfoTitle (nid s))[0 := NUL])"
  by (simp_all add: nid_tray_update Let_def szInfo_update_info)

lemma c_str_Nil [simp]: "c_str [] = []"
  by (simp add: c_str_def)

lemma has_chars_the: "has_chars p \<Longrightarrow> p = Some (the p)"
  by (cases p) (simp_all add: has_chars_def)

text \<open>
  C10. \<open>tray_update\<close> copies the tooltip, the notification title and the notification
  text into the 128-, 64- and 256-byte buffers of \<open>nid\<close> with truncation: the buffers
  keep their sizes (nothing is written past their ends), each holds a terminator, and
  the string read back is the source cut to the buffer size less one. \<open>tray_update\<close>
  has no failing outcome, whatever the length of the texts.
\<close>

theorem tray_update_copies_truncate:
  assumes "nid_sized (nid s)"
  shows "nid_sized (nid (tray_update tr s)) \<and>
     NUL \<in> set (szTip (nid (tray_update tr s))) \<and>
     NUL \<in> set (szInfo (nid (tray_update tr s))) \<and>
     NUL \<in> set (szInfoTitle (nid (tray_update tr s))) \<and>
     c_str (szTip (nid (tray_update tr s))) =
       (if has_chars (tooltip tr) then take 127 (c_str (the (tooltip tr))) else []) \<and>
     c_str (szInfoTitle (nid (tray_update tr s))) =
       (if has_chars (notification_title tr) then take 63 (c_str (the (notification_title tr))) else []) \<and>
     c_str (szInfo (nid (tray_update tr s))) =
       (if has_chars (notification_text tr) then take 255 (c_str (the (notification_text tr))) else [])"
proof -
  let ?tip = "szTip (nid s)" and ?info = "szInfo (nid s)" and ?title = "szInfoTitle (nid s)"
  have lt: "length ?tip = 128" and li: "length ?info = 256" and ltt: "length ?title = 64"
    using assms by (simp_all add: nid_sized_def)
  have tne: "?tip \<noteq> []" using lt by auto
  have i0: "0 < length ?info" "length ?info \<le> STRSAFE_MAX_CCH"
    using li by (simp_all add: STRSAFE_MAX_CCH_def)
  have t0: "0 < length ?title" "length ?title \<le> STRSAFE_MAX_CCH"
    using ltt by (simp_all add: STRSAFE_MAX_CCH_def)
  have tip: "length (szTip (nid (tray_update tr s))) = 128 \<and>
     NUL \<in> set (szTip (nid (tray_update tr s))) \<and>
     c_str (szTip (nid (tray_update tr s))) =
       (if has_chars (tooltip tr) then take 127 (c_str (the (tooltip tr))) else [])"
    using strncpy_terminated[OF tne, of "the (tooltip tr)"] lt tne
      length_strncpy[of ?tip "the (tooltip tr)"]
    by (auto simp: szTip_tray_update c_str_zero intro: set_update_memI)
  have info: "length (szInfo (nid (tray_update tr s))) = 256 \<and>
     NUL \<in> set (szInfo (nid (tray_update tr s))) \<and>
     c_str (szInfo (nid (tray_update tr s))) =
       (if has_chars (notification_text tr) then take 255 (c_str (the (notification_text tr))) else [])"
    using safe_copy_sz_ok[OF i0] li has_chars_the[of "notification_text tr"]
    by (auto simp: szInfo_tray_update c_str_zero intro: set_update_memI split: option.splits)
  have title: "length (szInfoTitle (nid (tray_update tr s))) = 64 \<and>
     NUL \<in> set (szInfoTitle (nid (tray_update tr s))) \<and>
     c_str (szInfoTitle (nid (tray_update tr s))) =
       (if has_chars (notification_title tr) then take 63 (c_str (the (notification_title tr))) else [])"
    using safe_copy_sz_ok[OF t0] ltt has_chars_the[of "notification_title tr"]
    by (auto simp: szInfo_tray_update c_str_zero intro: set_update_memI split: option.splits)
  show ?thesis using tip info title by (simp add: nid_sized_def)
qed

theorem tray_update_copies_truncate_witness:
  "nid_sized (nid state0) \<and>
   length (szTip (nid (tray_update tray_long state0))) = 128 \<and>
   c_str (szTip (nid (tray_update tray_long state0))) = replicate 127 CHR ''t'' \<and>
   c_str (szInfoTitle (nid (tray_update tray_long state0))) = replicate 63 CHR ''y'' \<and>
   c_str (szInfo (nid (tray_update tray_long state0))) = replicate 255 CHR ''x''"
proof -
  have h: "nid_sized (nid state0)"
    by (simp add: nid_sized_def state0_def nid_zero_def)
  have c: "has_chars (tooltip tray_long)" "has_chars (notification_title tray_long)"
      "has_chars (notification_text tray_long)"
    by (simp_all add: has_chars_def tray_long_def c_str_def NUL_def)
  show ?thesis
    using h c tray_update_copies_truncate[OF h, of tray_long]
    by (simp add: nid_sized_def tray_long_def c_str_def NUL_def)
qed

section \<open>Frame and trace of the steps of \<open>tray_update\<close>\<close>

lemma frame_emit [simp]:
  "os (emit e s) = os s" "icon_infos (emit e s) = icon_infos s"
  "g_tray_log_cb (emit e s) = g_tray_log_cb s" "hmenu (emit e s) = hmenu s"
  "g_tray (emit e s) = g_tray s" "next_handle (emit e s) = next_handle s"
  "trace (emit e s) = trace s @ [e]" "wm_taskbarcreated (emit e s) = wm_taskbarcreated s"
  "hwnd (emit e s) = hwnd s" "g_notification_cb (emit e s) = g_notification_cb s"
  by (simp_all add: emit_def)

lemma frame_log [simp]:
  "os (tray_log_last_error l c s) = os s" "icon_infos (tray_log_last_error l c s) = icon_infos s"
  "g_tray_log_cb (tray_log_last_error l c s) = g_tray_log_cb s"
  "hmenu (tray_log_last_error l c s) = hmenu s"
  "g_tray (tray_log_last_error l c s) = g_tray s"
  "next_handle (tray_log_last_error l c s) = next_handle s"
  "wm_taskbarcreated (tray_log_last_error l c s) = wm_taskbarcreated s"
  "hwnd (tray_log_last_error l c s) = hwnd s"
  "g_notification_cb (tray_log_last_error l c s) = g_notification_cb s"
  by (simp_all add: tray_log_last_error_def split: option.splits)

lemma trace_log:
  "trace (tray_log_last_error l c s) =
     trace s @ (case g_tray_log_cb s of None \<Rightarrow> [] | Some k \<Rightarrow> [Ev_log_cb k l c])"
  by (simp add: tray_log_last_error_def split: option.splits)

lemma frame_create_icon_info [simp]:
  "os (snd (create_icon_info p s)) = os s"
  "icon_infos (snd (create_icon_info p s)) = icon_infos s"
  "g_tray_log_cb (snd (create_icon_info p s)) = g_tray_log_cb s"
  "hmenu (snd (create_icon_info p s)) = hmenu s"
  "g_tray (snd (create_icon_info p s)) = g_tray s"
  "wm_taskbarcreated (snd (create_icon_info p s)) = wm_taskbarcreated s"
  "hwnd (snd (create_icon_info p s)) = hwnd s"
  "g_notification_cb (snd (create_icon_info p s)) = g_notification_cb s"
  "trace (snd (create_icon_info p s)) =
     trace s @ [Ev_ExtractIconExA p True, Ev_ExtractIconExA p False, Ev_LoadImageA p]"
  "info_path (fst (create_icon_info p s)) = c_str p"
  by (simp_all add: create_icon_info_def alloc_def emit_def split: prod.splits)

lemma frame_fetch_icon [simp]:
  "os (snd (fetch_icon p t s)) = os s"
  "g_tray_log_cb (snd (fetch_icon p t s)) = g_tray_log_cb s"
  "hmenu (snd (fetch_icon p t s)) = hmenu s"
  "g_tray (snd (fetch_icon p t s)) = g_tray s"
  "wm_taskbarcreated (snd (fetch_icon p t s)) = wm_taskbarcreated s"
  "hwnd (snd (fetch_icon p t s)) = hwnd s"
  "g_notification_cb (snd (fetch_icon p t s)) = g_notification_cb s"
  by (simp_all add: fetch_icon_def case_prod_beta split: option.splits)

lemma trace_fetch_icon: "trace (snd (fetch_icon p t s)) = trace s @ fetch_events p s"
  by (simp add: fetch_icon_def fetch_events_def case_prod_beta split: option.splits)

lemma frame_update_menu [simp]:
  "os (update_menu tr s) = os s" "icon_infos (update_menu tr s) = icon_infos s"
  "g_tray_log_cb (update_menu tr s) = g_tray_log_cb s"
  "g_tray (update_menu tr s) = g_tray s" "trace (update_menu tr s) = trace s"
  "wm_taskbarcreated (update_menu tr s) = wm_taskbarcreated s"
  "hwnd (update_menu tr s) = hwnd s"
  "g_notification_cb (update_menu tr s) = g_notification_cb s"
  "hmenu (update_menu tr s) = Some (fst (tray_menu_build [] (menu tr) (ID_TRAY_FIRST, next_handle s)))"
  by (simp_all add: update_menu_def case_prod_beta)

lemma frame_update_info [simp]:
  "os (fst (update_info tr fl s)) = os s"
  "icon_infos (fst (update_info tr fl s)) = icon_infos s"
  "g_tray_log_cb (fst (update_info tr fl s)) = g_tray_log_cb s"
  "hmenu (fst (update_info tr fl s)) = hmenu s"
  "g_tray (fst (update_info tr fl s)) = g_tray s"
  "wm_taskbarcreated (fst (update_info tr fl s)) = wm_taskbarcreated s"
  "hwnd (fst (update_info tr fl s)) = hwnd s"
  "g_notification_cb (fst (update_info tr fl s)) = g_notification_cb s"
  "trace (fst (update_info tr fl s)) = trace s @ info_events tr"
  by (simp_all add: update_info_def info_events_def Let_def case_prod_beta alloc_def emit_def)

lemma frame_update_apply [simp]:
  "os (update_apply tr fl s) = os s"
  "icon_infos (update_apply tr fl s) = icon_infos s"
  "g_tray_log_cb (update_apply tr fl s) = g_tray_log_cb s"
  "hmenu (update_apply tr fl s) = hmenu s"
  "g_tray (update_apply tr fl s) = g_tray s"
  "next_handle (update_apply tr fl s) = next_handle s"
  "wm_taskbarcreated (update_apply tr fl s) = wm_taskbarcreated s"
  "hwnd (update_apply tr fl s) = hwnd s"
  "g_notification_cb (update_apply tr fl s) = notification_cb tr"
  "trace (update_apply tr fl s) =
     trace s @ [Ev_Shell_NotifyIconA NIM_MODIFY ((nid s)\<lparr>uFlags := fl\<rparr>)] @ modify_log_events s"
  by (simp_all add: update_apply_def Shell_NotifyIconA_def modify_log_events_def emit_def
      tray_log_last_error_def split: option.splits)

lemma frame_destroy_prevmenu [simp]:
  "os (destroy_prevmenu pm s) = os s"
  "icon_infos (destroy_prevmenu pm s) = icon_infos s"
  "g_tray_log_cb (destroy_prevmenu pm s) = g_tray_log_cb s"
  "hmenu (destroy_prevmenu pm s) = hmenu s"
  "g_tray (destroy_prevmenu pm s) = g_tray s"
  "next_handle (destroy_prevmenu pm s) = next_handle s"
  "wm_taskbarcreated (destroy_prevmenu pm s) = wm_taskbarcreated s"
  "hwnd (destroy_prevmenu pm s) = hwnd s"
  "g_notification_cb (destroy_prevmenu pm s) = g_notification_cb s"
  "trace (destroy_prevmenu pm s) = trace s @ destroy_events pm"
  by (simp_all add: destroy_prevmenu_def destroy_events_def split: option.splits)

lemma frame_after_menu [simp]:
  "os (after_menu tr s) = os s" "icon_infos (after_menu tr s) = icon_infos s"
  "g_tray_log_cb (after_menu tr s) = g_tray_log_cb s"
  "g_tray (after_menu tr s) = Some tr"
  "trace (after_menu tr s) = trace s @ [Ev_SendMessage WM_INITMENUPOPUP]"
  "nid (after_menu tr s) = nid s"
  "wm_taskbarcreated (after_menu tr s) = wm_taskbarcreated s"
  "hwnd (after_menu tr s) = hwnd s"
  "hmenu (after_menu tr s) = Some (fst (tray_menu_build [] (menu tr) (ID_TRAY_FIRST, next_handle s)))"
  by (simp_all add: after_menu_def)

lemma fetch_events_cong:
  "icon_infos s = icon_infos s' \<Longrightarrow> fetch_events p s = fetch_events p s'"
  by (simp add: fetch_events_def)

lemma modify_log_events_cong:
  "os s = os s' \<Longrightarrow> g_tray_log_cb s = g_tray_log_cb s' \<Longrightarrow> modify_log_events s = modify_log_events s'"
  by (simp add: modify_log_events_def)

lemma tray_update_eq2:
  "tray_update tr s =
     (let f = fetch_icon (icon tr) REGULAR (after_menu tr s);
          ni = update_icon_tip tr (fst f) (nid s);
          r = update_info tr (snd ni) ((snd f)\<lparr>nid := fst ni\<rparr>)
      in destroy_prevmenu (hmenu s) (update_apply tr (snd r) (fst r)))"
  by (simp add: tray_update_eq case_prod_beta Let_def after_menu_def)

lemma frame_nid_upd [simp]:
  "os (s\<lparr>nid := n\<rparr>) = os s" "g_tray_log_cb (s\<lparr>nid := n\<rparr>) = g_tray_log_cb s"
  by simp_all

lemma trace_tray_update: "trace (tray_update tr s) = trace s @ tray_update_events tr s"
proof -
  let ?f = "fetch_icon (icon tr) REGULAR (after_menu tr s)"
  let ?ni = "update_icon_tip tr (fst ?f) (nid s)"
  let ?r = "update_info tr (snd ?ni) ((snd ?f)\<lparr>nid := fst ?ni\<rparr>)"
  have n: "nid (tray_update tr s) = (nid (fst ?r))\<lparr>uFlags := snd ?r\<rparr>"
    by (simp add: nid_tray_update Let_def)
  have fe: "fetch_events (icon tr) (after_menu tr s) = fetch_events (icon tr) s"
    by (rule fetch_events_cong) simp
  have ml: "modify_log_events (fst ?r) = modify_log_events s"
    by (rule modify_log_events_cong) simp_all
  show ?thesis
    by (simp add: tray_update_eq2 Let_def tray_update_events_def n trace_fetch_icon fe ml)
qed

lemma frame_tray_update [simp]:
  "os (tray_update tr s) = os s"
  "g_tray_log_cb (tray_update tr s) = g_tray_log_cb s"
  "g_tray (tray_update tr s) = Some tr"
  "wm_taskbarcreated (tray_update tr s) = wm_taskbarcreated s"
  "hwnd (tray_update tr s) = hwnd s"
  "g_notification_cb (tray_update tr s) = notification_cb tr"
  "hmenu (tray_update tr s) = Some (fst (tray_menu_build [] (menu tr) (ID_TRAY_FIRST, next_handle s)))"
  by (simp_all add: tray_update_eq2 Let_def)

lemma fetch_icon_None_cong:
  assumes "icon_infos s = icon_infos s'" "os s = os s'"
  shows "(fst (fetch_icon p t s) = None) = (fst (fetch_icon p t s') = None)"
  using assms
  by (cases t) (simp_all add: fetch_icon_def create_icon_info_def alloc_def case_prod_beta split: option.splits)

lemma flag_bits:
  "((NIF_MESSAGE OR NIF_GUID OR (if a then NIF_ICON else 0) OR
     (if b then NIF_TIP OR NIF_SHOWTIP else 0) OR (if c then NIF_INFO else 0)) AND NIF_TIP \<noteq> 0) = b"
  "((NIF_MESSAGE OR NIF_GUID OR (if a then NIF_ICON else 0) OR
     (if b then NIF_TIP OR NIF_SHOWTIP else 0) OR (if c then NIF_INFO else 0)) AND NIF_INFO \<noteq> 0) = c"
  "((NIF_MESSAGE OR NIF_GUID OR (if a then NIF_ICON else 0) OR
     (if b then NIF_TIP OR NIF_SHOWTIP else 0) OR (if c then NIF_INFO else 0)) AND NIF_ICON \<noteq> 0) = a"
  by (cases a; cases b; cases c;
      simp add: NIF_MESSAGE_def NIF_GUID_def NIF_ICON_def NIF_TIP_def NIF_SHOWTIP_def NIF_INFO_def)+

lemma hIcon_update_icon_tip:
  "hIcon (fst (update_icon_tip tr ic n)) = (case ic of None \<Rightarrow> hIcon n | Some h \<Rightarrow> Some h)"
  by (cases ic) (simp_all add: update_icon_tip_def Let_def)

lemma hIcon_update_info [simp]: "hIcon (nid (fst (update_info tr fl s))) = hIcon (nid s)"
  by (simp add: update_info_def Let_def case_prod_beta alloc_def emit_def)

lemma balloon_update_info:
  "dwInfoFlags (nid (fst (update_info tr fl s))) =
     (if has_info tr \<and> (loads_image tr s \<or> hIcon (nid s) \<noteq> None)
      then NIIF_USER OR NIIF_LARGE_ICON else NIIF_NONE)"
  "hBalloonIcon (nid (fst (update_info tr fl s))) =
     (if has_info tr \<and> loads_image tr s then Some (next_handle s)
      else if has_info tr \<and> hIcon (nid s) \<noteq> None then hIcon (nid s)
      else hBalloonIcon (nid s))"
  by (auto simp: update_info_def Let_def case_prod_beta alloc_def emit_def has_info_def
      loads_image_def)

lemma balloon_update_icon_tip [simp]:
  "hBalloonIcon (fst (update_icon_tip tr ic n)) = hBalloonIcon n"
  by (simp add: update_icon_tip_def Let_def case_prod_beta)

lemma hIcon_tray_update:
  "hIcon (nid (tray_update tr s)) =
     (case fst (fetch_icon (icon tr) REGULAR (after_menu tr s)) of
        None \<Rightarrow> hIcon (nid s)
      | Some h \<Rightarrow> Some h)"
  by (simp add: nid_tray_update Let_def hIcon_update_icon_tip)

lemma balloon_tray_update:
  "dwInfoFlags (nid (tray_update tr s)) =
     (if has_info tr \<and> (loads_image tr s \<or> hIcon (nid (tray_update tr s)) \<noteq> None)
      then NIIF_USER OR NIIF_LARGE_ICON else NIIF_NONE)"
  "hBalloonIcon (nid (tray_update tr s)) =
     (if has_info tr \<and> loads_image tr s
      then Some (next_handle (snd (fetch_icon (icon tr) REGULAR (after_menu tr s))))
      else if has_info tr \<and> hIcon (nid (tray_update tr s)) \<noteq> None
      then hIcon (nid (tray_update tr s))
      else hBalloonIcon (nid s))"
  unfolding hIcon_tray_update
  by (auto simp: nid_tray_update Let_def balloon_update_info hIcon_update_icon_tip loads_image_def)


lemma tray_update_strings:
  assumes "nid_sized (nid s)"
  shows "nid_sized (nid (tray_update tr s))"
    and "c_str (szTip (nid (tray_update tr s))) =
       (if has_chars (tooltip tr) then take 127 (c_str (the (tooltip tr))) else [])"
    and "c_str (szInfoTitle (nid (tray_update tr s))) =
       (if has_chars (notification_title tr) then take 63 (c_str (the (notification_title tr))) else [])"
    and "c_str (szInfo (nid (tray_update tr s))) =
       (if has_chars (notification_text tr) then take 255 (c_str (the (notification_text tr))) else [])"
proof -
  let ?tip = "szTip (nid s)" and ?info = "szInfo (nid s)" and ?title = "szInfoTitle (nid s)"
  have lt: "length ?tip = 128" and li: "length ?info = 256" and ltt: "length ?title = 64"
    using assms by (simp_all add: nid_sized_def)
  have tne: "?tip \<noteq> []" using lt by auto
  have i0: "0 < length ?info" "length ?info \<le> STRSAFE_MAX_CCH"
    using li by (simp_all add: STRSAFE_MAX_CCH_def)
  have t0: "0 < length ?title" "length ?title \<le> STRSAFE_MAX_CCH"
    using ltt by (simp_all add: STRSAFE_MAX_CCH_def)
  have tip: "length (szTip (nid (tray_update tr s))) = 128 \<and>
     c_str (szTip (nid (tray_update tr s))) =
       (if has_chars (tooltip tr) then take 127 (c_str (the (tooltip tr))) else [])"
    using strncpy_terminated[OF tne, of "the (tooltip tr)"] lt tne
      length_strncpy[of ?tip "the (tooltip tr)"]
    by (auto simp: szTip_tray_update c_str_zero)
  have info: "length (szInfo (nid (tray_update tr s))) = 256 \<and>
     c_str (szInfo (nid (tray_update tr s))) =
       (if has_chars (notification_text tr) then take 255 (c_str (the (notification_text tr))) else [])"
    using safe_copy_sz_ok[OF i0] li has_chars_the[of "notification_text tr"]
    by (auto simp: szInfo_tray_update c_str_zero split: option.splits)
  have title: "length (szInfoTitle (nid (tray_update tr s))) = 64 \<and>
     c_str (szInfoTitle (nid (tray_update tr s))) =
       (if has_chars (notification_title tr) then take 63 (c_str (the (notification_title tr))) else [])"
    using safe_copy_sz_ok[OF t0] ltt has_chars_the[of "notification_title tr"]
    by (auto simp: szInfo_tray_update c_str_zero split: option.splits)
  show "nid_sized (nid (tray_update tr s))" using tip info title by (simp add: nid_sized_def)
  show "c_str (szTip (nid (tray_update tr s))) =
       (if has_chars (tooltip tr) then take 127 (c_str (the (tooltip tr))) else [])"
    using tip by simp
  show "c_str (szInfoTitle (nid (tray_update tr s))) =
       (if has_chars (notification_title tr) then take 63 (c_str (the (notification_title tr))) else [])"
    using title by simp
  show "c_str (szInfo (nid (tray_update tr s))) =
       (if has_chars (notification_text tr) then take 255 (c_str (the (notification_text tr))) else [])"
    using info by simp
qed

text \<open>
  C5 (as the code has it). The flag word that \<open>tray_update\<close> applies does not depend
  on what \<open>nid\<close> held before: it is \<open>NIF_MESSAGE | NIF_GUID\<close> plus \<open>NIF_ICON\<close> exactly
  when the icon resolves, \<open>NIF_TIP\<close> (with \<open>NIF_SHOWTIP\<close>) exactly when the description
  has a non-empty tooltip, and \<open>NIF_INFO\<close> exactly when it has a notification title or
  text. The call \<open>Shell_NotifyIconA(NIM_MODIFY)\<close> is in the trace, with the \<open>nid\<close> so
  computed. The tooltip, the notification title and the notification text are
  rewritten from the description alone (the empty string when absent). The icon
  handle is the exception: \<open>nid.hIcon\<close> is overwritten only when the icon resolves and
  otherwise keeps its value; a notification takes its balloon icon from the image it
  loads, else from \<open>nid.hIcon\<close>, and sets \<open>NIIF_USER | NIIF_LARGE_ICON\<close> exactly when
  one of the two is there. In particular, after an update with a tooltip and then an
  update without one, the applied flags do not contain \<open>NIF_TIP\<close> and the tooltip
  buffer holds the empty string.
\<close>

theorem tray_update_applied_fields:
  "uFlags (nid (tray_update tr (s\<lparr>nid := n\<rparr>))) = uFlags (nid (tray_update tr s)) \<and>
   uFlags (nid (tray_update tr s)) =
     NIF_MESSAGE OR NIF_GUID OR
     (if fst (fetch_icon (icon tr) REGULAR s) \<noteq> None then NIF_ICON else 0) OR
     (if has_chars (tooltip tr) then NIF_TIP OR NIF_SHOWTIP else 0) OR
     (if has_info tr then NIF_INFO else 0) \<and>
   (uFlags (nid (tray_update tr s)) AND NIF_TIP \<noteq> 0) = has_chars (tooltip tr) \<and>
   (uFlags (nid (tray_update tr s)) AND NIF_INFO \<noteq> 0) = has_info tr \<and>
   (uFlags (nid (tray_update tr s)) AND NIF_ICON \<noteq> 0) = (fst (fetch_icon (icon tr) REGULAR s) \<noteq> None) \<and>
   trace (tray_update tr s) =
     trace s @ [Ev_SendMessage WM_INITMENUPOPUP] @ fetch_events (icon tr) s @ info_events tr @
     [Ev_Shell_NotifyIconA NIM_MODIFY (nid (tray_update tr s))] @ modify_log_events s @
     destroy_events (hmenu s) \<and>
   (nid_sized (nid s) \<longrightarrow>
      nid_sized (nid (tray_update tr s)) \<and>
      c_str (szTip (nid (tray_update tr s))) =
        (if has_chars (tooltip tr) then take 127 (c_str (the (tooltip tr))) else []) \<and>
      c_str (szInfoTitle (nid (tray_update tr s))) =
        (if has_chars (notification_title tr) then take 63 (c_str (the (notification_title tr))) else []) \<and>
      c_str (szInfo (nid (tray_update tr s))) =
        (if has_chars (notification_text tr) then take 255 (c_str (the (notification_text tr))) else [])) \<and>
   hIcon (nid (tray_update tr s)) =
     (case fst (fetch_icon (icon tr) REGULAR (after_menu tr s)) of
        None \<Rightarrow> hIcon (nid s)
      | Some h \<Rightarrow> Some h) \<and>
   dwInfoFlags (nid (tray_update tr s)) =
     (if has_info tr \<and> (loads_image tr s \<or> hIcon (nid (tray_update tr s)) \<noteq> None)
      then NIIF_USER OR NIIF_LARGE_ICON else NIIF_NONE) \<and>
   hBalloonIcon (nid (tray_update tr s)) =
     (if has_info tr \<and> loads_image tr s
      then Some (next_handle (snd (fetch_icon (icon tr) REGULAR (after_menu tr s))))
      else if has_info tr \<and> hIcon (nid (tray_update tr s)) \<noteq> None
      then hIcon (nid (tray_update tr s))
      else hBalloonIcon (nid s)) \<and>
   (has_chars (tooltip tr1) \<and> \<not> has_chars (tooltip tr2) \<longrightarrow>
      uFlags (nid (tray_update tr1 s)) AND NIF_TIP \<noteq> 0 \<and>
      uFlags (nid (tray_update tr2 (tray_update tr1 s))) AND NIF_TIP = 0 \<and>
      c_str (szTip (nid (tray_update tr2 (tray_update tr1 s)))) = [])"
proof -
  have ic: "(fst (fetch_icon (icon tr) REGULAR (after_menu tr s')) \<noteq> None) =
            (fst (fetch_icon (icon tr) REGULAR s) \<noteq> None)"
    if "icon_infos s' = icon_infos s" "os s' = os s" for s'
    using fetch_icon_None_cong[of "after_menu tr s'" s "icon tr" REGULAR] that by simp
  have f: "uFlags (nid (tray_update tr s')) =
     NIF_MESSAGE OR NIF_GUID OR
     (if fst (fetch_icon (icon tr) REGULAR s) \<noteq> None then NIF_ICON else 0) OR
     (if has_chars (tooltip tr) then NIF_TIP OR NIF_SHOWTIP else 0) OR
     (if has_info tr then NIF_INFO else 0)"
    if "icon_infos s' = icon_infos s" "os s' = os s" for s'
    unfolding uFlags_tray_update ic[OF that] has_info_def ..
  have f1: "uFlags (nid (tray_update tr (s\<lparr>nid := n\<rparr>))) = uFlags (nid (tray_update tr s))"
    using f[of "s\<lparr>nid := n\<rparr>"] f[of s] by simp
  have tip: "(uFlags (nid (tray_update tr' s')) AND NIF_TIP \<noteq> 0) = has_chars (tooltip tr')" for tr' s'
    unfolding uFlags_tray_update by (rule flag_bits)
  have info: "(uFlags (nid (tray_update tr s)) AND NIF_INFO \<noteq> 0) = has_info tr"
    unfolding uFlags_tray_update has_info_def by (rule flag_bits)
  have "(uFlags (nid (tray_update tr s)) AND NIF_ICON \<noteq> 0) =
     (fst (fetch_icon (icon tr) REGULAR (after_menu tr s)) \<noteq> None)"
    unfolding uFlags_tray_update by (rule flag_bits)
  then have icon: "(uFlags (nid (tray_update tr s)) AND NIF_ICON \<noteq> 0) =
     (fst (fetch_icon (icon tr) REGULAR s) \<noteq> None)"
    using ic[of s] by simp
  have tr: "trace (tray_update tr s) =
     trace s @ [Ev_SendMessage WM_INITMENUPOPUP] @ fetch_events (icon tr) s @ info_events tr @
     [Ev_Shell_NotifyIconA NIM_MODIFY (nid (tray_update tr s))] @ modify_log_events s @
     destroy_events (hmenu s)"
    by (simp add: trace_tray_update tray_update_events_def)
  have sc: "has_chars (tooltip tr1) \<and> \<not> has_chars (tooltip tr2) \<longrightarrow>
      uFlags (nid (tray_update tr1 s)) AND NIF_TIP \<noteq> 0 \<and>
      uFlags (nid (tray_update tr2 (tray_update tr1 s))) AND NIF_TIP = 0 \<and>
      c_str (szTip (nid (tray_update tr2 (tray_update tr1 s)))) = []"
    using tip[of tr1 s] tip[of tr2 "tray_update tr1 s"]
    by (auto simp: szTip_tray_update c_str_zero)
  show ?thesis
    using f1 f[of s] tip[of tr s] info icon tr tray_update_strings[of s tr]
      hIcon_tray_update[of tr s] balloon_tray_update[of tr s] sc
    by blast
qed


lemmas update_defs = tray_update_def tray_update_run_def Let_def update_menu_def fetch_icon_def
  create_icon_info_def alloc_def emit_def update_icon_tip_def update_info_def update_apply_def
  Shell_NotifyIconA_def destroy_prevmenu_def tray_log_last_error_def has_chars_def

theorem tray_update_applied_fields_witness:
  "nid_sized (nid state0) \<and>
   has_chars (tooltip tray_tip) \<and> \<not> has_chars (tooltip tray_no_tip) \<and>
   c_str (szTip (nid (tray_update tray_tip state0))) = ''Hi'' \<and>
   c_str (szInfo (nid (tray_update tray_tip state0))) = [] \<and>
   uFlags (nid (tray_update tray_tip state0)) AND NIF_TIP \<noteq> 0 \<and>
   uFlags (nid (tray_update tray_no_tip (tray_update tray_tip state0))) AND NIF_TIP = 0 \<and>
   c_str (szTip (nid (tray_update tray_no_tip (tray_update tray_tip state0)))) = []"
proof -
  have h0: "nid_sized (nid state0)"
    by (simp add: nid_sized_def state0_def nid_zero_def)
  have h: "has_chars (tooltip tray_tip) \<and> \<not> has_chars (tooltip tray_no_tip)"
    by (simp add: has_chars_def tray_tip_def tray_no_tip_def c_str_def NUL_def)
  have v: "take 127 (c_str (the (tooltip tray_tip))) = ''Hi''"
    "\<not> has_chars (notification_text tray_tip)"
    by (simp_all add: has_chars_def tray_tip_def c_str_def NUL_def)
  note t = tray_update_applied_fields[where ?tr1.0 = tray_tip and ?tr2.0 = tray_no_tip
      and s = state0 and tr = tray_tip]
  from t h0 have a: "c_str (szTip (nid (tray_update tray_tip state0))) =
        (if has_chars (tooltip tray_tip) then take 127 (c_str (the (tooltip tray_tip))) else [])"
    by blast
  from t h0 have b: "c_str (szInfo (nid (tray_update tray_tip state0))) =
        (if has_chars (notification_text tray_tip)
         then take 255 (c_str (the (notification_text tray_tip))) else [])"
    by blast
  from t h have c: "uFlags (nid (tray_update tray_tip state0)) AND NIF_TIP \<noteq> 0 \<and>
      uFlags (nid (tray_update tray_no_tip (tray_update tray_tip state0))) AND NIF_TIP = 0 \<and>
      c_str (szTip (nid (tray_update tray_no_tip (tray_update tray_tip state0)))) = []"
    by blast
  have a': "c_str (szTip (nid (tray_update tray_tip state0))) = ''Hi''"
    unfolding a using h v(1) by simp
  have b': "c_str (szInfo (nid (tray_update tray_tip state0))) = []"
    unfolding b using v(2) by simp
  show ?thesis using h0 h a' b' c by blast
qed

text \<open>
  C5 as stated fails: the description \<open>tray_b_title\<close> has no notification icon and its
  icon does not decode, so \<open>NIF_ICON\<close> is not asserted. Applied first, it gives no
  balloon icon and \<open>NIIF_NONE\<close>; applied after an update whose icon did decode, it
  gives that earlier icon as balloon icon and \<open>NIIF_USER | NIIF_LARGE_ICON\<close>.
\<close>

theorem tray_update_balloon_icon_stale:
  "notification_icon tray_b_title = None \<and>
   uFlags (nid (tray_update tray_b_title (tray_update tray_tip (state0\<lparr>os := os_only_a\<rparr>)))) AND NIF_ICON = 0 \<and>
   dwInfoFlags (nid (tray_update tray_b_title (state0\<lparr>os := os_only_a\<rparr>))) = NIIF_NONE \<and>
   hBalloonIcon (nid (tray_update tray_b_title (state0\<lparr>os := os_only_a\<rparr>))) = None \<and>
   dwInfoFlags (nid (tray_update tray_b_title (tray_update tray_tip (state0\<lparr>os := os_only_a\<rparr>)))) =
     NIIF_USER OR NIIF_LARGE_ICON \<and>
   hBalloonIcon (nid (tray_update tray_b_title (tray_update tray_tip (state0\<lparr>os := os_only_a\<rparr>)))) =
     Some 3 \<and>
   dwInfoFlags (nid (tray_update tray_b_title (tray_update tray_tip (state0\<lparr>os := os_only_a\<rparr>)))) \<noteq>
     dwInfoFlags (nid (tray_update tray_b_title (state0\<lparr>os := os_only_a\<rparr>)))"
  by (simp add: update_defs state0_def nid_zero_def os_only_a_def os_all_ok_def tray_b_title_def
      tray_tip_def c_str_def NUL_def NIF_MESSAGE_def NIF_GUID_def NIF_ICON_def NIF_INFO_def
      NIIF_NONE_def NIIF_USER_def NIIF_LARGE_ICON_def)

section \<open>The order of installing and destroying menus\<close>

lemma destroyed_in_simps [simp]:
  "destroyed_in [] = {}"
  "destroyed_in (a @ b) = destroyed_in a \<union> destroyed_in b"
  "destroyed_in (e # b) = set (destroys e) \<union> destroyed_in b"
  by (simp_all add: destroyed_in_def)

lemma destroyed_in_steps [simp]:
  "destroyed_in (fetch_events p s) = {}"
  "destroyed_in (info_events tr) = {}"
  "destroyed_in (modify_log_events s) = {}"
  "destroyed_in (destroy_events pm) = (case pm of None \<Rightarrow> {} | Some m \<Rightarrow> {handle m})"
  by (simp_all add: fetch_events_def info_events_def modify_log_events_def destroy_events_def
      split: option.splits)

lemma handle_tray_menu_build: "handle (fst (tray_menu_build pre m (idc, nh))) = nh"
  by (cases m) (simp_all add: case_prod_beta)

lemma tray_update_run_eq:
  "tray_update_run tr s =
     (let s1 = s\<lparr>g_tray := Some tr\<rparr>;
          s2 = update_menu tr s1;
          s3 = emit (Ev_SendMessage WM_INITMENUPOPUP) s2;
          f = fetch_icon (icon tr) REGULAR s3;
          ni = update_icon_tip tr (fst f) (nid (snd f));
          s5 = (snd f)\<lparr>nid := fst ni\<rparr>;
          r = update_info tr (snd ni) s5;
          s7 = update_apply tr (snd r) (fst r);
          s8 = destroy_prevmenu (hmenu s) s7
      in [s, s1, s2, s3, snd f, s5, fst r, s7, s8])"
  by (simp add: tray_update_run_def Let_def case_prod_beta)

text \<open>
  C9. The run of \<open>tray_update\<close> has nine states. No menu is destroyed before the last
  step; the new menu, whose handle is fresh, is the active menu from the third state
  on; the last step destroys the previous menu and nothing else. Hence, if the active
  menu was valid on entry and the handles in use lie below the next free one, the
  active menu is valid in every state of the run.
\<close>

theorem tray_update_destroys_after_install:
  "length (tray_update_run tr s) = 9 \<and>
   tray_update tr s = tray_update_run tr s ! 8 \<and>
   (\<forall>i < 8. destroyed_menus (tray_update_run tr s ! i) = destroyed_menus s) \<and>
   (\<forall>i < 2. hmenu (tray_update_run tr s ! i) = hmenu s) \<and>
   (\<forall>i < 9. 2 \<le> i \<longrightarrow> hmenu (tray_update_run tr s ! i) = Some (new_menu tr s)) \<and>
   handle (new_menu tr s) = next_handle s \<and>
   destroyed_menus (tray_update tr s) =
     destroyed_menus s \<union> (case hmenu s of None \<Rightarrow> {} | Some pm \<Rightarrow> {handle pm}) \<and>
   (menu_valid s \<and> handles_below s \<longrightarrow> (\<forall>st \<in> set (tray_update_run tr s). menu_valid st))"
proof -
  let ?run = "tray_update_run tr s"
  have len: "length ?run = 9" by (simp add: tray_update_run_eq Let_def)
  have last: "tray_update tr s = ?run ! 8"
    by (simp add: tray_update_def tray_update_run_eq Let_def)
  have hnew: "handle (new_menu tr s) = next_handle s"
    by (simp add: new_menu_def handle_tray_menu_build)
  have d: "destroyed_menus (?run ! i) = destroyed_menus s" if "i < 8" for i
  proof -
    from that have "i \<in> {0, 1, 2, 3, 4, 5, 6, 7}" by auto
    then show ?thesis
      by (auto simp add: tray_update_run_eq Let_def destroyed_menus_def trace_fetch_icon)
  qed
  have h01: "hmenu (?run ! i) = hmenu s" if "i < 2" for i
  proof -
    from that consider "i = 0" | "i = 1" by linarith
    then show ?thesis by cases (simp_all add: tray_update_run_eq Let_def)
  qed
  have h2: "hmenu (?run ! i) = Some (new_menu tr s)" if "i < 9" "2 \<le> i" for i
  proof -
    from that have "i \<in> {2, 3, 4, 5, 6, 7, 8}" by auto
    then show ?thesis
      by (auto simp add: tray_update_run_eq Let_def new_menu_def)
  qed
  have d8: "destroyed_menus (tray_update tr s) =
     destroyed_menus s \<union> (case hmenu s of None \<Rightarrow> {} | Some pm \<Rightarrow> {handle pm})"
    by (simp add: destroyed_menus_def trace_tray_update tray_update_events_def)
  have v: "\<forall>st \<in> set ?run. menu_valid st" if mv: "menu_valid s" and hb: "handles_below s"
  proof
    fix st assume "st \<in> set ?run"
    then obtain i where i: "i < 9" "st = ?run ! i" using len by (metis in_set_conv_nth)
    obtain pm where pm: "hmenu s = Some pm" "handle pm \<notin> destroyed_menus s"
      using mv by (auto simp: menu_valid_def split: option.splits)
    have below: "handle pm < next_handle s" "\<forall>h \<in> destroyed_menus s. h < next_handle s"
      using hb pm by (auto simp: handles_below_def)
    show "menu_valid st"
    proof (cases "i < 2")
      case True
      then show ?thesis using h01[of i] d[of i] i pm by (simp add: menu_valid_def)
    next
      case False
      then have hm: "hmenu st = Some (new_menu tr s)" using h2[of i] i by simp
      show ?thesis
      proof (cases "i < 8")
        case True
        then show ?thesis using hm d[of i] i below hnew by (auto simp: menu_valid_def)
      next
        case False
        then have "i = 8" using i by simp
        then have "st = tray_update tr s" using last i by simp
        then show ?thesis using hm d8 pm below hnew by (auto simp: menu_valid_def)
      qed
    qed
  qed
  show ?thesis using len last d h01 h2 hnew d8 v by blast
qed


lemmas run_defs = tray_update_def tray_update_run_def Let_def update_menu_def fetch_icon_def
  create_icon_info_def alloc_def emit_def update_icon_tip_def update_info_def update_apply_def
  Shell_NotifyIconA_def destroy_prevmenu_def tray_log_last_error_def has_chars_def

theorem tray_update_destroys_after_install_witness:
  "menu_valid (tray_update tray_tip state0) \<and> handles_below (tray_update tray_tip state0) \<and>
   (\<forall>st \<in> set (tray_update_run tray_no_tip (tray_update tray_tip state0)). menu_valid st)"
proof -
  have h: "menu_valid (tray_update tray_tip state0) \<and> handles_below (tray_update tray_tip state0)"
    by (simp add: menu_valid_def handles_below_def destroyed_menus_def run_defs
        state0_def tray_tip_def os_all_ok_def)
  show ?thesis
    using h tray_update_destroys_after_install[of tray_no_tip "tray_update tray_tip state0"]
    by blast
qed

section \<open>Recovery after a restart of the shell\<close>

lemma snd_Shell_NotifyIconA [simp]:
  "snd (Shell_NotifyIconA m s) = emit (Ev_Shell_NotifyIconA m (nid s)) s"
  by (simp add: Shell_NotifyIconA_def)

lemma not_cb_update_events: "\<forall>e \<in> set (tray_update_events tr s). \<not> is_caller_cb e"
  by (auto simp: tray_update_events_def fetch_events_def info_events_def modify_log_events_def
      destroy_events_def split: option.splits if_splits)

lemma wnd_proc_taskbar_created:
  assumes "0xC000 \<le> wm_taskbarcreated s"
  shows "tray_wnd_proc hw (wm_taskbarcreated s) wparam lparam s = taskbar_created s"
proof -
  have "wm_taskbarcreated s \<noteq> WM_CLOSE" "wm_taskbarcreated s \<noteq> WM_DESTROY"
    "wm_taskbarcreated s \<noteq> WM_COMMAND" "wm_taskbarcreated s \<noteq> WM_TRAY_CALLBACK_MESSAGE"
    using assms
    by (auto simp: WM_CLOSE_def WM_DESTROY_def WM_COMMAND_def WM_TRAY_CALLBACK_MESSAGE_def WM_USER_def)
  then show ?thesis by (simp add: tray_wnd_proc_def)
qed

lemma taskbar_created_eq:
  assumes "g_tray s = Some tr"
  shows "taskbar_created s = tray_update tr (restart_state tr s)"
  using assms by (simp add: taskbar_created_def restart_state_def Let_def emit_def)

lemma trace_restart_state:
  "trace (restart_state tr s) =
     trace s @ [Ev_Shell_NotifyIconA NIM_ADD
                  ((nid s)\<lparr>uFlags := NIF_MESSAGE OR NIF_GUID, uCallbackMessage := WM_TRAY_CALLBACK_MESSAGE\<rparr>),
                Ev_Shell_NotifyIconA NIM_SETVERSION
                  ((nid s)\<lparr>uFlags := NIF_MESSAGE OR NIF_GUID, uCallbackMessage := WM_TRAY_CALLBACK_MESSAGE,
                            uVersion := NOTIFYICON_VERSION_4\<rparr>)] @
     destroy_events (hmenu s)"
  by (simp add: restart_state_def Let_def)

lemma bindings_new_menu: "menu_bindings (new_menu tr s) = number ID_TRAY_FIRST (slots_of [] (menu tr))"
  using build_loop_bindings(1)[of "[]" "menu tr" "(ID_TRAY_FIRST, next_handle s)"]
  by (simp add: new_menu_def)

text \<open>
  C6. After \<open>tray_update desc\<close>, the window procedure called with the registered
  shell-restart message (a registered message number is at least 0xC000) adds the
  notify icon again with \<open>NIM_ADD\<close>, sets the version again with \<open>NIM_SETVERSION\<close>,
  rebuilds the menu, destroys the previous one and runs \<open>tray_update desc\<close>. None of
  the events it adds is a call of a menu callback or of the notification callback;
  \<open>desc\<close> stays on record and the active menu binds the records of \<open>desc\<close> as before.
\<close>

theorem shell_restart_replays:
  assumes "0xC000 \<le> wm_taskbarcreated s0"
  shows "tray_wnd_proc hw (wm_taskbarcreated (tray_update desc s0)) wparam lparam (tray_update desc s0) =
           tray_update desc (restart_state desc (tray_update desc s0)) \<and>
         trace (tray_wnd_proc hw (wm_taskbarcreated (tray_update desc s0)) wparam lparam (tray_update desc s0)) =
           trace (tray_update desc s0) @
           [Ev_Shell_NotifyIconA NIM_ADD
              ((nid (tray_update desc s0))\<lparr>uFlags := NIF_MESSAGE OR NIF_GUID,
                  uCallbackMessage := WM_TRAY_CALLBACK_MESSAGE\<rparr>),
            Ev_Shell_NotifyIconA NIM_SETVERSION
              ((nid (tray_update desc s0))\<lparr>uFlags := NIF_MESSAGE OR NIF_GUID,
                  uCallbackMessage := WM_TRAY_CALLBACK_MESSAGE, uVersion := NOTIFYICON_VERSION_4\<rparr>)] @
           destroy_events (hmenu (tray_update desc s0)) @
           tray_update_events desc (restart_state desc (tray_update desc s0)) \<and>
         (\<forall>e \<in> set (drop (length (trace (tray_update desc s0)))
                      (trace (tray_wnd_proc hw (wm_taskbarcreated (tray_update desc s0)) wparam lparam
                                (tray_update desc s0)))).
            \<not> is_caller_cb e) \<and>
         g_tray (tray_wnd_proc hw (wm_taskbarcreated (tray_update desc s0)) wparam lparam (tray_update desc s0)) =
           Some desc \<and>
         (\<exists>hm. hmenu (tray_wnd_proc hw (wm_taskbarcreated (tray_update desc s0)) wparam lparam
                        (tray_update desc s0)) = Some hm \<and>
               menu_bindings hm = number ID_TRAY_FIRST (slots_of [] (menu desc)) \<and>
               menu_bindings hm = menu_bindings (new_menu desc s0))"
proof -
  let ?s = "tray_update desc s0"
  let ?s' = "tray_wnd_proc hw (wm_taskbarcreated ?s) wparam lparam ?s"
  have w: "0xC000 \<le> wm_taskbarcreated ?s" using assms by simp
  have eq: "?s' = tray_update desc (restart_state desc ?s)"
    using wnd_proc_taskbar_created[OF w] taskbar_created_eq[of ?s desc] by simp
  have tr: "trace ?s' = trace ?s @
           [Ev_Shell_NotifyIconA NIM_ADD
              ((nid ?s)\<lparr>uFlags := NIF_MESSAGE OR NIF_GUID, uCallbackMessage := WM_TRAY_CALLBACK_MESSAGE\<rparr>),
            Ev_Shell_NotifyIconA NIM_SETVERSION
              ((nid ?s)\<lparr>uFlags := NIF_MESSAGE OR NIF_GUID,
                  uCallbackMessage := WM_TRAY_CALLBACK_MESSAGE, uVersion := NOTIFYICON_VERSION_4\<rparr>)] @
           destroy_events (hmenu ?s) @ tray_update_events desc (restart_state desc ?s)"
    unfolding eq by (simp add: trace_tray_update trace_restart_state)
  have nc: "\<forall>e \<in> set (drop (length (trace ?s)) (trace ?s')). \<not> is_caller_cb e"
    unfolding tr using not_cb_update_events[of desc "restart_state desc ?s"]
    by (auto simp: destroy_events_def split: option.splits)
  have g: "g_tray ?s' = Some desc" unfolding eq by simp
  have hm: "hmenu ?s' = Some (new_menu desc (restart_state desc ?s))"
    unfolding eq by (simp add: new_menu_def)
  have b: "menu_bindings (new_menu desc (restart_state desc ?s)) = number ID_TRAY_FIRST (slots_of [] (menu desc))"
    "menu_bindings (new_menu desc (restart_state desc ?s)) = menu_bindings (new_menu desc s0)"
    by (simp_all add: bindings_new_menu)
  show ?thesis using eq tr nc g hm b by blast
qed


lemma frame_alloc [simp]:
  "wm_taskbarcreated (snd (alloc ok s)) = wm_taskbarcreated s"
  "os (snd (alloc ok s)) = os s" "icon_infos (snd (alloc ok s)) = icon_infos s"
  "trace (snd (alloc ok s)) = trace s" "g_tray_log_cb (snd (alloc ok s)) = g_tray_log_cb s"
  "(fst (alloc ok s) = None) = (\<not> ok)"
  by (simp_all add: alloc_def)

lemma frame_init_icon_cache_loop [simp]:
  "wm_taskbarcreated (init_icon_cache_loop ps s) = wm_taskbarcreated s"
  "os (init_icon_cache_loop ps s) = os s"
  "g_tray_log_cb (init_icon_cache_loop ps s) = g_tray_log_cb s"
  by (induction ps arbitrary: s; simp add: case_prod_beta)+

lemma frame_init_icon_cache [simp]:
  "wm_taskbarcreated (init_icon_cache ps n s) = wm_taskbarcreated s"
  "os (init_icon_cache ps n s) = os s"
  "g_tray_log_cb (init_icon_cache ps n s) = g_tray_log_cb s"
  by (simp_all add: init_icon_cache_def)

lemma frame_DestroyWindow [simp]:
  "wm_taskbarcreated (DestroyWindow w s) = wm_taskbarcreated s"
  "icon_infos (DestroyWindow w s) = icon_infos s"
  "trace (DestroyWindow w s) = trace s @ [Ev_DestroyWindow w, Ev_PostQuitMessage]"
  by (simp_all add: DestroyWindow_def)

lemma wm_taskbarcreated_tray_init:
  "wm_taskbarcreated (snd (tray_init tr s)) = os_RegisterWindowMessageA (os s)"
  by (simp add: tray_init_def Let_def case_prod_beta Shell_NotifyIconA_def split: option.splits)

theorem shell_restart_replays_witness:
  "0xC000 \<le> wm_taskbarcreated (snd (tray_init tray_scenario state0)) \<and>
   g_tray (tray_wnd_proc 1 (wm_taskbarcreated (tray_update tray_scenario (snd (tray_init tray_scenario state0))))
             0 0 (tray_update tray_scenario (snd (tray_init tray_scenario state0)))) = Some tray_scenario \<and>
   (\<forall>e \<in> set (drop (length (trace (tray_update tray_scenario (snd (tray_init tray_scenario state0)))))
                (trace (tray_wnd_proc 1
                   (wm_taskbarcreated (tray_update tray_scenario (snd (tray_init tray_scenario state0))))
                   0 0 (tray_update tray_scenario (snd (tray_init tray_scenario state0)))))).
      \<not> is_caller_cb e)"
proof -
  have h: "0xC000 \<le> wm_taskbarcreated (snd (tray_init tray_scenario state0))"
    by (simp add: wm_taskbarcreated_tray_init state0_def os_all_ok_def)
  show ?thesis
    using h shell_restart_replays[OF h, of 1 tray_scenario 0 0] by blast
qed

section \<open>The message loop\<close>

lemma drain_result:
  "fst (drain pending s) = (if list_ex (\<lambda>m. message m = WM_QUIT) pending then -1 else 0) \<and>
   snd (drain pending s) = fold translate_dispatch (takeWhile (\<lambda>m. message m \<noteq> WM_QUIT) pending) s"
  by (induction pending arbitrary: s) auto

text \<open>
  C8 (as the code has it). \<open>tray_loop\<close> returns -1 exactly when a shutdown signal is
  observed or, in the blocking branch, when \<open>GetMessageA\<close> fails (returns a negative
  value); otherwise it returns 0. In the blocking branch a retrieved message is
  translated and dispatched. In the other branch the messages handed out before the
  first \<open>WM_QUIT\<close> are translated and dispatched in order; without a \<open>WM_QUIT\<close>
  that is all of them, and the result is 0.
\<close>

theorem tray_loop_terminate:
  "(fst (tray_loop blocking r m pending s) = -1) =
     (quit_observed blocking r pending \<or> (blocking \<noteq> 0 \<and> r < 0)) \<and>
   (fst (tray_loop blocking r m pending s) \<noteq> -1 \<longrightarrow> fst (tray_loop blocking r m pending s) = 0) \<and>
   (blocking \<noteq> 0 \<and> 0 < r \<longrightarrow> snd (tray_loop blocking r m pending s) = translate_dispatch m s) \<and>
   (blocking = 0 \<longrightarrow>
      snd (tray_loop blocking r m pending s) =
        fold translate_dispatch (takeWhile (\<lambda>m. message m \<noteq> WM_QUIT) pending) s) \<and>
   (blocking = 0 \<and> \<not> quit_observed blocking r pending \<longrightarrow>
      tray_loop blocking r m pending s = (0, fold translate_dispatch pending s))"
proof (cases "blocking = 0")
  case True
  have d: "fst (drain pending s) = (if list_ex (\<lambda>m. message m = WM_QUIT) pending then -1 else 0)"
    "snd (drain pending s) = fold translate_dispatch (takeWhile (\<lambda>m. message m \<noteq> WM_QUIT) pending) s"
    using drain_result[of pending s] by simp_all
  have nq: "takeWhile P xs = xs" if "\<forall>x \<in> set xs. P x" for P and xs :: "MSG list"
    using that by simp
  have e: "tray_loop blocking r m pending s = drain pending s"
    using True by (simp add: tray_loop_def)
  show ?thesis
    unfolding e using True d by (simp add: quit_observed_def prod_eq_iff list_ex_iff nq)
next
  case False
  then show ?thesis
    by (auto simp: tray_loop_def quit_observed_def)
qed

theorem tray_loop_terminate_witness:
  "(1::int) \<noteq> 0 \<and> (0::int) < 1 \<and>
   tray_loop 1 1 msg_null [] state0 = (0, translate_dispatch msg_null state0) \<and>
   \<not> quit_observed 0 0 [msg_null] \<and>
   tray_loop 0 0 msg_null [msg_null] state0 = (0, translate_dispatch msg_null state0) \<and>
   fst (tray_loop 0 0 msg_null [msg_null, msg_quit, msg_null] state0) = -1 \<and>
   snd (tray_loop 0 0 msg_null [msg_null, msg_quit, msg_null] state0) = translate_dispatch msg_null state0"
proof -
  have q: "\<not> quit_observed 0 0 [msg_null]" "quit_observed 0 0 [msg_null, msg_quit, msg_null]"
    by (simp_all add: quit_observed_def msg_null_def msg_quit_def WM_NULL_def WM_QUIT_def)
  have t: "takeWhile (\<lambda>m. message m \<noteq> WM_QUIT) [msg_null, msg_quit, msg_null] = [msg_null]"
    by (simp add: msg_null_def msg_quit_def WM_NULL_def WM_QUIT_def)
  have f: "fold translate_dispatch [msg_null] state0 = translate_dispatch msg_null state0"
    by simp
  have a: "tray_loop 1 1 msg_null [] state0 = (0, translate_dispatch msg_null state0)"
    using tray_loop_terminate[of 1 1 msg_null "[]" state0]
    by (simp add: prod_eq_iff quit_observed_def)
  have b: "tray_loop 0 0 msg_null [msg_null] state0 = (0, translate_dispatch msg_null state0)"
    using q(1) f tray_loop_terminate[of 0 0 msg_null "[msg_null]" state0] by simp
  have c: "fst (tray_loop 0 0 msg_null [msg_null, msg_quit, msg_null] state0) = -1"
    "snd (tray_loop 0 0 msg_null [msg_null, msg_quit, msg_null] state0) = translate_dispatch msg_null state0"
    using q(2) t f tray_loop_terminate[of 0 0 msg_null "[msg_null, msg_quit, msg_null]" state0]
    by simp_all
  show ?thesis using q a b c by simp
qed

text \<open>
  C8 as stated fails: when \<open>GetMessageA\<close> returns -1 (an error), the blocking
  \<open>tray_loop\<close> returns -1 although no shutdown signal has been observed.
\<close>

theorem tray_loop_error_terminates:
  "fst (tray_loop 1 (-1) msg_null [] state0) = -1 \<and> \<not> quit_observed 1 (-1) [] \<and>
   \<not> ((fst (tray_loop 1 (-1) msg_null [] state0) = -1) = quit_observed 1 (-1) [])"
  by (simp add: tray_loop_def quit_observed_def)

section \<open>The icon cache: entries and paths\<close>

lemma cache_paths_fetch:
  "cache_paths (snd (fetch_icon p t s)) =
     (if c_str p \<in> set (cache_paths s) then cache_paths s else cache_paths s @ [c_str p])"
proof (cases "find (\<lambda>info. info_path info = c_str p) (icon_infos s)")
  case None
  then have "c_str p \<notin> set (cache_paths s)"
    by (auto simp: find_None_iff cache_paths_def)
  then show ?thesis using None
    by (simp add: fetch_icon_def cache_paths_def case_prod_beta)
next
  case (Some info)
  then have "c_str p \<in> set (cache_paths s)"
    by (auto simp: find_Some_iff cache_paths_def) (metis nth_mem image_eqI)
  then show ?thesis using Some by (simp add: fetch_icon_def)
qed

lemma fetch_icon_hit:
  assumes "c_str p \<in> set (cache_paths s)"
  shows "snd (fetch_icon p t s) = s \<and>
         (\<exists>info \<in> set (icon_infos s). info_path info = c_str p \<and>
            fst (fetch_icon p t s) = fetch_cached_icon info t)"
proof -
  from assms obtain info where "find (\<lambda>info. info_path info = c_str p) (icon_infos s) = Some info"
    by (cases "find (\<lambda>info. info_path info = c_str p) (icon_infos s)")
       (auto simp: find_None_iff cache_paths_def)
  moreover from this have "info \<in> set (icon_infos s)" "info_path info = c_str p"
    by (auto simp: find_Some_iff)
  ultimately show ?thesis by (auto simp: fetch_icon_def)
qed

lemma find_append_new:
  "find P xs = None \<Longrightarrow> P x \<Longrightarrow> find P (xs @ [x]) = Some x"
  by (induction xs) (auto split: if_splits)

lemma fetch_icon_twice:
  "fetch_icon p t (snd (fetch_icon p t s)) = (fst (fetch_icon p t s), snd (fetch_icon p t s))"
proof (cases "find (\<lambda>info. info_path info = c_str p) (icon_infos s)")
  case None
  let ?c = "create_icon_info p s"
  have "find (\<lambda>info. info_path info = c_str p) (icon_infos (snd ?c) @ [fst ?c]) = Some (fst ?c)"
    using None by (intro find_append_new) simp_all
  then show ?thesis using None
    by (simp add: fetch_icon_def case_prod_beta)
next
  case (Some info)
  then show ?thesis by (simp add: fetch_icon_def)
qed

lemma cache_paths_init_loop:
  "cache_paths (init_icon_cache_loop ps s) = cache_paths s @ map c_str ps"
  by (induction ps arbitrary: s) (simp_all add: cache_paths_def case_prod_beta)

lemma cache_paths_init:
  "cache_paths (init_icon_cache ps n s) = map c_str (take (nat n) ps)"
  by (simp add: init_icon_cache_def cache_paths_init_loop) (simp add: cache_paths_def)

lemma cache_distinct_run:
  "distinct (cache_paths s) \<Longrightarrow> \<forall>op \<in> set ops. init_distinct op \<Longrightarrow>
   distinct (cache_paths (run_cache_ops ops s))"
proof (induction ops arbitrary: s)
  case Nil
  then show ?case by simp
next
  case (Cons op ops)
  show ?case
  proof (cases op)
    case (Op_init ps n)
    then show ?thesis using Cons by (simp add: cache_paths_init)
  next
    case (Op_fetch p t)
    then show ?thesis using Cons by (simp add: cache_paths_fetch)
  qed
qed

lemma cache_paths_fetch_all:
  "distinct (map c_str ps) \<Longrightarrow> set (map c_str ps) \<inter> set (cache_paths s) = {} \<Longrightarrow>
   cache_paths (run_cache_ops (map (\<lambda>p. Op_fetch p t) ps) s) = cache_paths s @ map c_str ps"
proof (induction ps arbitrary: s)
  case Nil
  then show ?case by simp
next
  case (Cons p ps)
  have new: "c_str p \<notin> set (cache_paths s)" using Cons.prems(2) by auto
  have cp: "cache_paths (snd (fetch_icon p t s)) = cache_paths s @ [c_str p]"
    using new by (simp add: cache_paths_fetch)
  have "set (map c_str ps) \<inter> set (cache_paths (snd (fetch_icon p t s))) = {}"
    using Cons.prems unfolding cp by auto
  then show ?case using Cons.IH[of "snd (fetch_icon p t s)"] Cons.prems(1) cp by simp
qed

text \<open>
  C3 (as the code has it). Starting from a cache without duplicate paths, any sequence
  of resolve operations and of initialisations with pairwise different paths leaves a
  cache without duplicate paths. Resolving a path that is present changes nothing (no
  decoding call, no new entry) and returns the handle stored in an entry of that
  path; resolving the same path a second time returns the same handle and changes
  nothing. Resolving N pairwise different paths that are not yet present appends
  exactly N entries, one per path.
\<close>

theorem icon_cache_one_entry_per_path:
  "(distinct (cache_paths s) \<and> (\<forall>op \<in> set ops. init_distinct op) \<longrightarrow>
      distinct (cache_paths (run_cache_ops ops s))) \<and>
   (c_str p \<in> set (cache_paths s) \<longrightarrow>
      snd (fetch_icon p t s) = s \<and>
      (\<exists>info \<in> set (icon_infos s). info_path info = c_str p \<and>
         fst (fetch_icon p t s) = fetch_cached_icon info t)) \<and>
   fetch_icon p t (snd (fetch_icon p t s)) = (fst (fetch_icon p t s), snd (fetch_icon p t s)) \<and>
   (distinct (map c_str ps) \<and> set (map c_str ps) \<inter> set (cache_paths s) = {} \<longrightarrow>
      cache_paths (run_cache_ops (map (\<lambda>p. Op_fetch p t) ps) s) = cache_paths s @ map c_str ps \<and>
      length (icon_infos (run_cache_ops (map (\<lambda>p. Op_fetch p t) ps) s)) =
        length (icon_infos s) + length ps)"
proof -
  have n: "length (icon_infos (run_cache_ops (map (\<lambda>p. Op_fetch p t) ps) s)) =
        length (icon_infos s) + length ps"
    if "distinct (map c_str ps)" "set (map c_str ps) \<inter> set (cache_paths s) = {}"
    using arg_cong[OF cache_paths_fetch_all[OF that, of t], of length]
    by (simp add: cache_paths_def)
  show ?thesis
    using cache_distinct_run[of s ops] fetch_icon_hit[of p s t] fetch_icon_twice[of p t s]
      cache_paths_fetch_all[of ps s t] n
    by blast
qed


theorem icon_cache_one_entry_per_path_witness:
  "distinct (cache_paths (init_icon_cache [''a.ico''] 1 state0)) \<and>
   (\<forall>op \<in> set [Op_init [''a.ico'', ''b.ico''] 2, Op_fetch ''a.ico'' REGULAR, Op_fetch ''c.ico'' LARGE].
      init_distinct op) \<and>
   c_str ''a.ico'' \<in> set (cache_paths (init_icon_cache [''a.ico''] 1 state0)) \<and>
   distinct (map c_str [''b.ico'', ''c.ico'']) \<and>
   set (map c_str [''b.ico'', ''c.ico'']) \<inter> set (cache_paths (init_icon_cache [''a.ico''] 1 state0)) = {} \<and>
   distinct (cache_paths (run_cache_ops
      [Op_init [''a.ico'', ''b.ico''] 2, Op_fetch ''a.ico'' REGULAR, Op_fetch ''c.ico'' LARGE]
      (init_icon_cache [''a.ico''] 1 state0))) \<and>
   snd (fetch_icon ''a.ico'' REGULAR (init_icon_cache [''a.ico''] 1 state0)) =
     init_icon_cache [''a.ico''] 1 state0 \<and>
   length (icon_infos (run_cache_ops (map (\<lambda>p. Op_fetch p REGULAR) [''b.ico'', ''c.ico''])
      (init_icon_cache [''a.ico''] 1 state0))) =
     length (icon_infos (init_icon_cache [''a.ico''] 1 state0)) + length [''b.ico'', ''c.ico'']"
proof -
  let ?s = "init_icon_cache [''a.ico''] 1 state0"
  let ?ops = "[Op_init [''a.ico'', ''b.ico''] 2, Op_fetch ''a.ico'' REGULAR, Op_fetch ''c.ico'' LARGE]"
  have cp: "cache_paths ?s = [''a.ico'']"
    by (simp add: cache_paths_init c_str_def NUL_def)
  have h1: "distinct (cache_paths ?s)" by (simp add: cp)
  have h2: "\<forall>op \<in> set ?ops. init_distinct op" by (simp add: c_str_def NUL_def)
  have h3: "c_str ''a.ico'' \<in> set (cache_paths ?s)" by (simp add: cp c_str_def NUL_def)
  have h4: "distinct (map c_str [''b.ico'', ''c.ico''])" by (simp add: c_str_def NUL_def)
  have h5: "set (map c_str [''b.ico'', ''c.ico'']) \<inter> set (cache_paths ?s) = {}"
    by (simp add: cp c_str_def NUL_def)
  show ?thesis
    using h1 h2 h3 h4 h5
      icon_cache_one_entry_per_path[of ?s ?ops "''a.ico''" REGULAR "[''b.ico'', ''c.ico'']"]
    by blast
qed

text \<open>
  C3 as stated fails: \<open>_init_icon_cache\<close> makes one entry per element of the list it
  is given, so a list that names a path twice yields two entries for that path.
\<close>

theorem icon_cache_init_duplicates:
  "cache_paths (run_cache_ops [Op_init [''a.ico'', ''a.ico''] 2] state0) = [''a.ico'', ''a.ico''] \<and>
   \<not> distinct (cache_paths (run_cache_ops [Op_init [''a.ico'', ''a.ico''] 2] state0))"
  by (simp add: cache_paths_init c_str_def NUL_def)

section \<open>Failure of \<open>tray_init\<close>\<close>

lemmas init_defs = tray_init_def init_icon_cache_def create_icon_info_def alloc_def emit_def
  tray_log_last_error_def Shell_NotifyIconA_def DestroyWindow_def Let_def

text \<open>
  C4. \<open>tray_init\<close> fills the icon cache before it registers the window class. When the
  registration of the class, the creation of the window or the adding of the notify
  icon fails, it returns -1 after releasing the window and the class it has made,
  but the cache entry decoded for the scenario's icon path is still held: its three
  handles are not destroyed and its path copy is not freed on any of the three
  failing paths.
\<close>

theorem tray_init_failure_keeps_icon_cache:
  "tray_init tray_scenario (state0\<lparr>os := os_all_ok\<lparr>os_RegisterClassExA := False\<rparr>\<rparr>) =
     (-1, state0\<lparr>os := os_all_ok\<lparr>os_RegisterClassExA := False\<rparr>,
            wm_taskbarcreated := 0xC123,
            icon_infos := [\<lparr>info_path = ''a.ico'', info_icon = Some 2, info_large_icon = Some 1,
                             info_notification_icon = Some 3\<rparr>],
            next_handle := 4,
            trace := [Ev_ExtractIconExA ''a.ico'' True, Ev_ExtractIconExA ''a.ico'' False,
                      Ev_LoadImageA ''a.ico'', Ev_RegisterClassExA]\<rparr>) \<and>
   fst (tray_init tray_scenario (state0\<lparr>os := os_all_ok\<lparr>os_CreateWindowExA := False\<rparr>\<rparr>)) = -1 \<and>
   icon_infos (snd (tray_init tray_scenario (state0\<lparr>os := os_all_ok\<lparr>os_CreateWindowExA := False\<rparr>\<rparr>))) =
     [\<lparr>info_path = ''a.ico'', info_icon = Some 2, info_large_icon = Some 1,
       info_notification_icon = Some 3\<rparr>] \<and>
   trace (snd (tray_init tray_scenario (state0\<lparr>os := os_all_ok\<lparr>os_CreateWindowExA := False\<rparr>\<rparr>))) =
     [Ev_ExtractIconExA ''a.ico'' True, Ev_ExtractIconExA ''a.ico'' False, Ev_LoadImageA ''a.ico'',
      Ev_RegisterClassExA, Ev_CreateWindowExA, Ev_UnregisterClassA] \<and>
   fst (tray_init tray_scenario
          (state0\<lparr>os := os_all_ok\<lparr>os_Shell_NotifyIconA := (\<lambda>m. m \<noteq> NIM_ADD)\<rparr>\<rparr>)) = -1 \<and>
   icon_infos (snd (tray_init tray_scenario
          (state0\<lparr>os := os_all_ok\<lparr>os_Shell_NotifyIconA := (\<lambda>m. m \<noteq> NIM_ADD)\<rparr>\<rparr>))) =
     [\<lparr>info_path = ''a.ico'', info_icon = Some 2, info_large_icon = Some 1,
       info_notification_icon = Some 3\<rparr>] \<and>
   trace (snd (tray_init tray_scenario
          (state0\<lparr>os := os_all_ok\<lparr>os_Shell_NotifyIconA := (\<lambda>m. m \<noteq> NIM_ADD)\<rparr>\<rparr>))) =
     [Ev_ExtractIconExA ''a.ico'' True, Ev_ExtractIconExA ''a.ico'' False, Ev_LoadImageA ''a.ico'',
      Ev_RegisterClassExA, Ev_CreateWindowExA, Ev_UpdateWindow 4,
      Ev_Shell_NotifyIconA NIM_ADD
        (nid_zero\<lparr>hWnd := Some 4, uID := 1, uFlags := NIF_MESSAGE OR NIF_GUID,
            uCallbackMessage := WM_TRAY_CALLBACK_MESSAGE\<rparr>),
      Ev_DestroyWindow 4, Ev_PostQuitMessage, Ev_UnregisterClassA]"
  by (simp add: init_defs state0_def os_all_ok_def tray_scenario_def c_str_def NUL_def)

section \<open>Looking up a command in the native menu\<close>

lemma HIWORD_ucast [simp]: "HIWORD (ucast (c :: WORD)) = 0"
  unfolding HIWORD_def
  by (rule bit_word_eqI) (auto simp: bit_simps dest: bit_imp_le_length)

lemma LOWORD_ucast [simp]: "LOWORD (ucast (c :: WORD)) = c"
  unfolding LOWORD_def
  by (rule bit_word_eqI) (auto simp: bit_simps)

lemma find_item_binding:
  "find_item c its = Some it \<Longrightarrow> wID it = c \<and>
     (\<forall>p. dwItemData it = Some p \<longrightarrow> (c, p) \<in> set (concat (map item_bindings its)))"
proof (induction c its rule: find_item.induct)
  case (1 c)
  then show ?case by simp
next
  case (2 c w ty st td dat its)
  then show ?case by (auto split: if_splits)
next
  case (3 c w ty st td dat h sits its)
  then show ?case by (auto split: if_splits option.splits)
qed


lemma set_item_state_find:
  "set_item_state c v its = Some its' \<Longrightarrow>
     map_option (\<lambda>it. (wID it, dwItemData it)) (find_item c' its') =
     map_option (\<lambda>it. (wID it, dwItemData it)) (find_item c' its) \<and>
     concat (map item_bindings its') = concat (map item_bindings its)"
proof (induction c v its arbitrary: its' rule: set_item_state.induct)
  case (1 c v)
  then show ?case by simp
next
  case (2 c v w ty st td dat its)
  show ?case
  proof (cases "w = c")
    case True
    with 2(2) have "its' = Native_item w ty v td dat None # its" by simp
    then show ?thesis by simp
  next
    case False
    with 2(2) obtain r where r: "set_item_state c v its = Some r"
      "its' = Native_item w ty st td dat None # r" by auto
    from 2(1)[OF False r(1)] r(2) show ?thesis by simp
  qed
next
  case (3 c v w ty st td dat h sits its)
  show ?case
  proof (cases "set_item_state c v sits")
    case (Some sits')
    with 3(3) have e: "its' = Native_item w ty st td dat (Some (Native_menu h sits')) # its" by simp
    from 3(1)[OF Some] show ?thesis unfolding e
      by (cases "find_item c' sits"; cases "find_item c' sits'"; simp)
  next
    case None
    show ?thesis
    proof (cases "w = c")
      case True
      with None 3(3) have "its' = Native_item w ty v td dat (Some (Native_menu h sits)) # its" by simp
      then show ?thesis by (cases "find_item c' sits"; simp)
    next
      case False
      with None 3(3) obtain r where r: "set_item_state c v its = Some r"
        "its' = Native_item w ty st td dat (Some (Native_menu h sits)) # r" by auto
      from 3(2)[OF None False r(1)] r(2) show ?thesis by (cases "find_item c' sits"; simp)
    qed
  qed
qed

section \<open>Back-references lead to item records\<close>

lemma slots_node_at:
  "(p, b) \<in> set (slots pre i ms) \<Longrightarrow>
     \<exists>j r m. p = pre @ (i + j) # r \<and> node_at ms (j # r) = Some m \<and>
             menu_text m \<noteq> None \<and> (b \<longleftrightarrow> menu_text m \<noteq> Some ''-'')"
proof (induction pre i ms arbitrary: p b rule: slots.induct)
  case (1 pre i)
  then show ?case by simp
next
  case (2 pre i d c cx k ctx sub ms)
  then show ?case by simp
next
  case (3 pre i t d c cx k ctx sub ms)
  let ?m = "Tray_menu (Some t) d c cx k ctx sub"
  from 3(3) consider
      (own) "p = pre @ [i]" "b \<longleftrightarrow> t \<noteq> ''-''"
    | (sub) sm where "t \<noteq> ''-''" "sub = Some sm" "(p, b) \<in> set (slots (pre @ [i]) 0 sm)"
    | (rest) "(p, b) \<in> set (slots pre (Suc i) ms)"
    by (auto split: if_splits option.splits)
  then show ?case
  proof cases
    case own
    then have "p = pre @ (i + 0) # []" "node_at (?m # ms) (0 # []) = Some ?m" by simp_all
    then show ?thesis using own by (metis tray_menu.sel(1) option.distinct(1) option.inject)
  next
    case sub
    from 3(1)[OF sub(1,2,3)] obtain j r m where
      jr: "p = (pre @ [i]) @ (0 + j) # r" "node_at sm (j # r) = Some m"
          "menu_text m \<noteq> None" "b \<longleftrightarrow> menu_text m \<noteq> Some ''-''" by blast
    have "p = pre @ (i + 0) # (j # r)" using jr(1) by simp
    moreover have "node_at (?m # ms) (0 # j # r) = Some m" using jr(2) sub(2) by simp
    ultimately show ?thesis using jr(3,4) by blast
  next
    case rest
    from 3(2)[OF rest] obtain j r m where
      jr: "p = pre @ (Suc i + j) # r" "node_at ms (j # r) = Some m"
          "menu_text m \<noteq> None" "b \<longleftrightarrow> menu_text m \<noteq> Some ''-''" by blast
    have "p = pre @ (i + Suc j) # r" using jr(1) by simp
    moreover have "node_at (?m # ms) (Suc j # r) = Some m" using jr(2) by simp
    ultimately show ?thesis using jr(3,4) by blast
  qed
qed

lemma number_slot: "(w, p) \<in> set (number idc sl) \<Longrightarrow> (p, True) \<in> set sl"
  using number_mem[of w p idc sl] by (metis nth_mem)

lemma refs_ok_new_menu: "refs_ok (menu tr) (new_menu tr s)"
proof (cases "menu tr")
  case None
  then show ?thesis
    by (simp add: refs_ok_def bindings_new_menu slots_of_def)
next
  case (Some ms)
  have "\<exists>m. node_at ms p = Some m \<and> is_item m"
    if "(w, p) \<in> set (number ID_TRAY_FIRST (slots [] 0 ms))" for w p
  proof -
    from that have "(p, True) \<in> set (slots [] 0 ms)" by (rule number_slot)
    from slots_node_at[OF this] show ?thesis by (auto simp: is_item_def)
  qed
  then show ?thesis
    unfolding refs_ok_def bindings_new_menu list_all_iff Some
    by (fastforce simp: slots_of_def split: option.splits)
qed

lemma bound_ok_tray_update: "bound_ok (tray_update tr s)"
  using refs_ok_new_menu[of tr s] by (simp add: bound_ok_def new_menu_def)

lemma node_at_update_same:
  "node_at ms p = Some m \<Longrightarrow> node_at (node_update f ms p) p = Some (f m)"
proof (induction f ms p rule: node_update.induct)
  case (4 f t d c cx k ctx sub ms j r)
  then show ?case by (cases sub) simp_all
qed simp_all

lemma node_update_text:
  assumes "\<And>m. menu_text (f m) = menu_text m" "\<And>m. submenu (f m) = submenu m"
  shows "map_option menu_text (node_at (node_update f ms p) q) = map_option menu_text (node_at ms q)"
  using assms
proof (induction f ms p arbitrary: q rule: node_update.induct)
  case (1 f p)
  then show ?case by simp
next
  case (2 f m ms)
  then show ?case by simp
next
  case (3 f m ms)
  show ?case
  proof (cases q)
    case Nil
    then show ?thesis by simp
  next
    case (Cons a q')
    then show ?thesis using 3
      by (cases a; cases q') simp_all
  qed
next
  case (4 f t d c cx k ctx sub ms j r)
  show ?case
  proof (cases q)
    case Nil
    then show ?thesis by simp
  next
    case (Cons a q')
    show ?thesis
    proof (cases a)
      case 0
      show ?thesis
      proof (cases q')
        case Nil
        then show ?thesis using Cons 0 by simp
      next
        case (Cons b q'')
        show ?thesis
        proof (cases sub)
          case None
          then show ?thesis using \<open>q = a # q'\<close> 0 Cons by simp
        next
          case (Some sm)
          from 4(1)[OF Some 4(2,3), of "b # q''"]
          show ?thesis using \<open>q = a # q'\<close> 0 Cons Some by simp
        qed
      qed
    next
      case (Suc n)
      then show ?thesis using Cons by simp
    qed
  qed
next
  case (5 f m ms i r)
  show ?case
  proof (cases q)
    case Nil
    then show ?thesis by simp
  next
    case (Cons a q')
    show ?thesis
    proof (cases a)
      case 0
      then show ?thesis using Cons by (cases q') simp_all
    next
      case (Suc n)
      from 5(1)[OF 5(2,3), of "n # q'"] show ?thesis using Cons Suc by simp
    qed
  qed
qed

section \<open>Dispatch of a command\<close>

lemma toggle_checked_sel [simp]:
  "menu_text (toggle_checked m) = menu_text m" "submenu (toggle_checked m) = submenu m"
  "cb (toggle_checked m) = cb m" "checkbox (toggle_checked m) = checkbox m"
  "disabled (toggle_checked m) = disabled m" "menu_context (toggle_checked m) = menu_context m"
  by (simp_all add: toggle_checked_def)

lemma checked_toggle: "checked (toggle_checked m) = (if checked m = 0 then 1 else 0)"
  by (simp add: toggle_checked_def)

lemma toggle_twice:
  "checked (toggle_checked (toggle_checked m)) = (if checked m = 0 then 0 else 1)"
  "checked m = 0 \<or> checked m = 1 \<Longrightarrow> toggle_checked (toggle_checked m) = m"
  by (cases m; auto simp: toggle_checked_def)+

lemma GetMenuItemInfoA_Set:
  "map_option (\<lambda>it. (wID it, dwItemData it)) (GetMenuItemInfoA (SetMenuItemInfoA hm c v) c') =
   map_option (\<lambda>it. (wID it, dwItemData it)) (GetMenuItemInfoA hm c')"
proof (cases hm)
  case None
  then show ?thesis by (simp add: SetMenuItemInfoA_def)
next
  case (Some m)
  show ?thesis
  proof (cases "set_item_state c v (items m)")
    case None
    then show ?thesis using Some by (simp add: SetMenuItemInfoA_def)
  next
    case (Some its')
    from set_item_state_find[OF this, of c'] show ?thesis
      using \<open>hm = Some m\<close> Some by (simp add: SetMenuItemInfoA_def GetMenuItemInfoA_def)
  qed
qed

lemma bindings_Set:
  "map_option menu_bindings (SetMenuItemInfoA hm c v) = map_option menu_bindings hm"
proof (cases hm)
  case None
  then show ?thesis by (simp add: SetMenuItemInfoA_def)
next
  case (Some m)
  obtain h its where m: "m = Native_menu h its" by (cases m)
  show ?thesis
  proof (cases "set_item_state c v its")
    case None
    then show ?thesis using Some m by (simp add: SetMenuItemInfoA_def)
  next
    case (Some its')
    from set_item_state_find[OF this] show ?thesis
      using \<open>hm = Some m\<close> m Some by (simp add: SetMenuItemInfoA_def)
  qed
qed

lemma wm_command_eq:
  assumes hi: "HIWORD wparam = 0"
    and g: "g_tray s = Some tr" and ms: "menu tr = Some ms"
    and f: "GetMenuItemInfoA (hmenu s) (ucast (LOWORD wparam)) = Some it"
    and d: "dwItemData it = Some p" and n: "node_at ms p = Some m"
  shows "wm_command wparam s =
     (if checkbox m \<noteq> 0
      then (case cb m of
              None \<Rightarrow> id
            | Some k \<Rightarrow> emit (Ev_menu_cb k (toggle_checked m)))
             (s\<lparr>g_tray := Some (tr\<lparr>menu := Some (node_update toggle_checked ms p)\<rparr>),
                hmenu := SetMenuItemInfoA (hmenu s) (ucast (LOWORD wparam))
                           (if checked (toggle_checked m) \<noteq> 0 then MFS_CHECKED else 0)\<rparr>)
      else (case cb m of None \<Rightarrow> id | Some k \<Rightarrow> emit (Ev_menu_cb k m)) s)"
proof -
  have dr: "deref s p = Some m" using g ms n by (simp add: deref_def)
  show ?thesis
  proof (cases "checkbox m \<noteq> 0")
    case True
    let ?s1 = "(store toggle_checked p s)\<lparr>hmenu := SetMenuItemInfoA (hmenu s) (ucast (LOWORD wparam))
                 (if checked (toggle_checked m) \<noteq> 0 then MFS_CHECKED else 0)\<rparr>"
    have s1: "?s1 = s\<lparr>g_tray := Some (tr\<lparr>menu := Some (node_update toggle_checked ms p)\<rparr>),
                hmenu := SetMenuItemInfoA (hmenu s) (ucast (LOWORD wparam))
                           (if checked (toggle_checked m) \<noteq> 0 then MFS_CHECKED else 0)\<rparr>"
      using g ms by (simp add: store_def)
    have d1: "deref ?s1 p = Some (toggle_checked m)"
      using g ms node_at_update_same[OF n, of toggle_checked] by (simp add: deref_def store_def)
    have "wm_command wparam s =
           (case cb (toggle_checked m) of None \<Rightarrow> ?s1 | Some k \<Rightarrow> emit (Ev_menu_cb k (toggle_checked m)) ?s1)"
      using hi f d dr True d1 by (simp add: wm_command_def Let_def)
    then show ?thesis using True unfolding s1 by (cases "cb m") simp_all
  next
    case False
    then show ?thesis using hi f d dr by (simp add: wm_command_def Let_def split: option.splits)
  qed
qed


lemma frame_case_emit [simp]:
  "g_tray ((case k of None \<Rightarrow> id | Some x \<Rightarrow> emit (e x)) s) = g_tray s"
  "hmenu ((case k of None \<Rightarrow> id | Some x \<Rightarrow> emit (e x)) s) = hmenu s"
  "trace ((case k of None \<Rightarrow> id | Some x \<Rightarrow> emit (e x)) s) =
     trace s @ (case k of None \<Rightarrow> [] | Some x \<Rightarrow> [e x])"
  by (cases k; simp)+

lemma wm_command_post:
  assumes hi: "HIWORD wparam = 0"
    and g: "g_tray s = Some tr" and ms: "menu tr = Some ms"
    and f: "GetMenuItemInfoA (hmenu s) (ucast (LOWORD wparam)) = Some it"
    and d: "dwItemData it = Some p" and n: "node_at ms p = Some m"
  shows "deref (wm_command wparam s) p = Some (dispatched m)"
    and "trace (wm_command wparam s) =
           trace s @ (case cb m of None \<Rightarrow> [] | Some k \<Rightarrow> [Ev_menu_cb k (dispatched m)])"
    and "\<exists>tr' ms' it'. g_tray (wm_command wparam s) = Some tr' \<and> menu tr' = Some ms' \<and>
           node_at ms' p = Some (dispatched m) \<and>
           GetMenuItemInfoA (hmenu (wm_command wparam s)) (ucast (LOWORD wparam)) = Some it' \<and>
           dwItemData it' = Some p"
    and "checkbox m = 0 \<Longrightarrow> g_tray (wm_command wparam s) = g_tray s \<and> hmenu (wm_command wparam s) = hmenu s"
proof -
  note e = wm_command_eq[OF assms]
  show "deref (wm_command wparam s) p = Some (dispatched m)"
    using g ms n node_at_update_same[OF n, of toggle_checked]
    by (simp add: e deref_def dispatched_def)
  show "trace (wm_command wparam s) =
           trace s @ (case cb m of None \<Rightarrow> [] | Some k \<Rightarrow> [Ev_menu_cb k (dispatched m)])"
    by (cases "checkbox m = 0") (simp_all add: e dispatched_def split: option.splits)
  show "checkbox m = 0 \<Longrightarrow> g_tray (wm_command wparam s) = g_tray s \<and> hmenu (wm_command wparam s) = hmenu s"
    by (simp add: e)
  show "\<exists>tr' ms' it'. g_tray (wm_command wparam s) = Some tr' \<and> menu tr' = Some ms' \<and>
           node_at ms' p = Some (dispatched m) \<and>
           GetMenuItemInfoA (hmenu (wm_command wparam s)) (ucast (LOWORD wparam)) = Some it' \<and>
           dwItemData it' = Some p"
  proof (cases "checkbox m \<noteq> 0")
    case False
    then show ?thesis using g ms n f d by (simp add: e dispatched_def)
  next
    case True
    let ?v = "if checked (toggle_checked m) \<noteq> 0 then MFS_CHECKED else 0"
    from GetMenuItemInfoA_Set[of "hmenu s" "ucast (LOWORD wparam)" ?v "ucast (LOWORD wparam)"] f d
    obtain it' where "GetMenuItemInfoA (SetMenuItemInfoA (hmenu s) (ucast (LOWORD wparam)) ?v)
                         (ucast (LOWORD wparam)) = Some it'" "dwItemData it' = Some p"
      by (cases "GetMenuItemInfoA (SetMenuItemInfoA (hmenu s) (ucast (LOWORD wparam)) ?v)
                         (ucast (LOWORD wparam))") auto
    then show ?thesis
      using True node_at_update_same[OF n, of toggle_checked]
      by (simp add: e dispatched_def)
  qed
qed

lemma wnd_proc_command: "tray_wnd_proc hw WM_COMMAND wparam lparam s = wm_command wparam s"
  by (simp add: tray_wnd_proc_def WM_COMMAND_def WM_CLOSE_def WM_DESTROY_def)

text \<open>
  C2 (as the code has it). Let command \<open>c\<close> resolve to the record \<open>m\<close> behind the
  back-reference \<open>p\<close>. Dispatching \<open>WM_COMMAND\<close> for \<open>c\<close> leaves \<open>dispatched m\<close>
  behind \<open>p\<close> and calls the callback of \<open>m\<close>, if any, with that record, so the toggle
  comes first. For a checkbox, \<open>checked\<close> becomes \<open>!checked\<close>: 1 if it was 0, else 0;
  after two dispatches it is 0 if it was 0 and 1 otherwise, so the record is the
  original one exactly when \<open>checked\<close> was 0 or 1. Without the checkbox flag the
  record and the whole description are unchanged.
\<close>

theorem checkbox_dispatch_toggles:
  assumes "g_tray s = Some tr" and "menu tr = Some ms"
    and "GetMenuItemInfoA (hmenu s) (ucast c) = Some it"
    and "dwItemData it = Some p" and "node_at ms p = Some m"
  shows "tray_wnd_proc hw WM_COMMAND (ucast (c :: WORD)) lparam s = wm_command (ucast c) s \<and>
     trace (wm_command (ucast c) s) =
       trace s @ (case cb m of None \<Rightarrow> [] | Some k \<Rightarrow> [Ev_menu_cb k (dispatched m)]) \<and>
     deref (wm_command (ucast c) s) p = Some (dispatched m) \<and>
     deref (wm_command (ucast c) (wm_command (ucast c) s)) p = Some (dispatched (dispatched m)) \<and>
     (checkbox m \<noteq> 0 \<longrightarrow>
        checked (dispatched m) = (if checked m = 0 then 1 else 0) \<and>
        checked (dispatched (dispatched m)) = (if checked m = 0 then 0 else 1) \<and>
        (checked m = 0 \<or> checked m = 1 \<longrightarrow> dispatched (dispatched m) = m)) \<and>
     (checkbox m = 0 \<longrightarrow>
        dispatched m = m \<and> g_tray (wm_command (ucast c) s) = g_tray s)"
proof -
  let ?w = "ucast c :: WPARAM"
  have hi: "HIWORD ?w = 0" by simp
  have f: "GetMenuItemInfoA (hmenu s) (ucast (LOWORD ?w)) = Some it" using assms(3) by simp
  note p1 = wm_command_post[OF hi assms(1,2) f assms(4,5)]
  from p1(3) obtain tr' ms' it' where
    s1: "g_tray (wm_command ?w s) = Some tr'" "menu tr' = Some ms'"
        "node_at ms' p = Some (dispatched m)"
        "GetMenuItemInfoA (hmenu (wm_command ?w s)) (ucast (LOWORD ?w)) = Some it'"
        "dwItemData it' = Some p" by blast
  note p2 = wm_command_post[OF hi s1(1,2,4,5,3)]
  have cbx: "checkbox m \<noteq> 0 \<longrightarrow>
        checked (dispatched m) = (if checked m = 0 then 1 else 0) \<and>
        checked (dispatched (dispatched m)) = (if checked m = 0 then 0 else 1) \<and>
        (checked m = 0 \<or> checked m = 1 \<longrightarrow> dispatched (dispatched m) = m)"
    using toggle_twice[of m] by (auto simp: dispatched_def checked_toggle)
  have ncb: "checkbox m = 0 \<longrightarrow> dispatched m = m \<and> g_tray (wm_command ?w s) = g_tray s"
    using p1(4) by (simp add: dispatched_def)
  show ?thesis
    using wnd_proc_command[of hw ?w lparam s] p1(1,2) p2(1) cbx ncb by blast
qed


lemma hmenu_scenario:
  "hmenu (tray_update tray_scenario state0) =
     Some (Native_menu 1
       [Native_item 1000 0 0 (Some ''Quit'') (Some [0]) None,
        separator_item,
        Native_item 1002 0 0 (Some ''Toggle'') (Some [2]) None])"
  by (simp add: tray_scenario_def menu_scenario_def sentinel_def state0_def ID_TRAY_FIRST_def
      numeral_2_eq_2)

lemma hmenu_checked2:
  "hmenu (tray_update tray_checked2 state0) =
     Some (Native_menu 1 [Native_item 1000 0 MFS_CHECKED (Some ''Toggle'') (Some [0]) None])"
  by (simp add: tray_checked2_def tray_scenario_def menu_checked2_def sentinel_def state0_def
      ID_TRAY_FIRST_def)

theorem checkbox_dispatch_toggles_witness:
  "g_tray (tray_update tray_scenario state0) = Some tray_scenario \<and>
   menu tray_scenario = Some menu_scenario \<and>
   GetMenuItemInfoA (hmenu (tray_update tray_scenario state0)) (ucast (1002 :: WORD)) =
     Some (Native_item 1002 0 0 (Some ''Toggle'') (Some [2]) None) \<and>
   dwItemData (Native_item 1002 0 0 (Some ''Toggle'') (Some [2]) None) = Some [2] \<and>
   node_at menu_scenario [2] = Some (Tray_menu (Some ''Toggle'') 0 0 1 (Some 2) 0 None) \<and>
   trace (wm_command (ucast (1002 :: WORD)) (tray_update tray_scenario state0)) =
     trace (tray_update tray_scenario state0) @
     [Ev_menu_cb 2 (Tray_menu (Some ''Toggle'') 0 1 1 (Some 2) 0 None)] \<and>
   deref (wm_command (ucast (1002 :: WORD)) (tray_update tray_scenario state0)) [2] =
     Some (Tray_menu (Some ''Toggle'') 0 1 1 (Some 2) 0 None) \<and>
   deref (wm_command (ucast (1002 :: WORD))
            (wm_command (ucast (1002 :: WORD)) (tray_update tray_scenario state0))) [2] =
     Some (Tray_menu (Some ''Toggle'') 0 0 1 (Some 2) 0 None)"
proof -
  let ?s = "tray_update tray_scenario state0"
  let ?it = "Native_item 1002 0 0 (Some ''Toggle'') (Some [2]) None"
  let ?m = "Tray_menu (Some ''Toggle'') 0 0 1 (Some 2) 0 None"
  have h1: "g_tray ?s = Some tray_scenario" by simp
  have h2: "menu tray_scenario = Some menu_scenario" by (simp add: tray_scenario_def)
  have h3: "GetMenuItemInfoA (hmenu ?s) (ucast (1002 :: WORD)) = Some ?it"
    unfolding hmenu_scenario by (simp add: GetMenuItemInfoA_def separator_item_def)
  have h4: "dwItemData ?it = Some [2]" by simp
  have h5: "node_at menu_scenario [2] = Some ?m"
    by (simp add: menu_scenario_def numeral_2_eq_2)
  have d: "dispatched ?m = Tray_menu (Some ''Toggle'') 0 1 1 (Some 2) 0 None"
    "dispatched (dispatched ?m) = ?m"
    by (simp_all add: dispatched_def toggle_checked_def)
  show ?thesis
    using h1 h2 h3 h4 h5 checkbox_dispatch_toggles[OF h1 h2 h3 h4 h5, of 1 0]
    by (simp add: d)
qed

text \<open>
  C2 as stated fails for an initial \<open>checked\<close> value other than 0 and 1: from 2, two
  dispatches lead to 0 and then to 1, not back to 2.
\<close>

theorem checkbox_dispatch_twice_not_original:
  "map_option checked (deref (tray_update tray_checked2 state0) [0]) = Some 2 \<and>
   map_option checked
     (deref (tray_wnd_proc 1 WM_COMMAND (ucast (1000 :: WORD)) 0
        (tray_wnd_proc 1 WM_COMMAND (ucast (1000 :: WORD)) 0 (tray_update tray_checked2 state0))) [0]) =
     Some 1"
proof -
  let ?s = "tray_update tray_checked2 state0"
  let ?w = "ucast (1000 :: WORD) :: WPARAM"
  let ?it = "Native_item 1000 0 MFS_CHECKED (Some ''Toggle'') (Some [0]) None"
  let ?m = "Tray_menu (Some ''Toggle'') 0 2 1 (Some 2) 0 None"
  have hi: "HIWORD ?w = 0" by (rule HIWORD_ucast)
  have h1: "g_tray ?s = Some tray_checked2" by simp
  have h2: "menu tray_checked2 = Some menu_checked2" by (simp add: tray_checked2_def)
  have h3: "GetMenuItemInfoA (hmenu ?s) (ucast (LOWORD ?w)) = Some ?it"
    unfolding hmenu_checked2 LOWORD_ucast by (simp add: GetMenuItemInfoA_def)
  have h4: "dwItemData ?it = Some [0]" by simp
  have h5: "node_at menu_checked2 [0] = Some ?m" by (simp add: menu_checked2_def)
  note p1 = wm_command_post[OF hi h1 h2 h3 h4 h5]
  from p1(3) obtain tr' ms' it' where
    s1: "g_tray (wm_command ?w ?s) = Some tr'" "menu tr' = Some ms'"
        "node_at ms' [0] = Some (dispatched ?m)"
        "GetMenuItemInfoA (hmenu (wm_command ?w ?s)) (ucast (LOWORD ?w)) = Some it'"
        "dwItemData it' = Some [0]" by blast
  note p2 = wm_command_post[OF hi s1(1,2,4,5,3)]
  have "deref ?s [0] = Some ?m" using h1 h2 h5 by (simp add: deref_def)
  moreover have "checked (dispatched (dispatched ?m)) = 1"
    by (simp add: dispatched_def toggle_checked_def)
  ultimately show ?thesis using p2(1) by (simp add: wnd_proc_command)
qed

section \<open>Separators are never a dispatch target\<close>

lemma menu_bindings_items: "menu_bindings hm = concat (map item_bindings (items hm))"
  by (cases hm) simp

lemma wm_command_cases:
  "wm_command wparam s = s \<or>
   (\<exists>tr ms it p m. HIWORD wparam = 0 \<and> g_tray s = Some tr \<and> menu tr = Some ms \<and>
      GetMenuItemInfoA (hmenu s) (ucast (LOWORD wparam)) = Some it \<and>
      dwItemData it = Some p \<and> node_at ms p = Some m)"
  by (auto simp: wm_command_def deref_def Let_def split: option.splits)

lemma refs_ok_iff:
  "refs_ok mo hm \<longleftrightarrow>
     (\<forall>(w, p) \<in> set (menu_bindings hm). \<exists>ms m. mo = Some ms \<and> node_at ms p = Some m \<and> is_item m)"
  by (cases mo) (auto simp: refs_ok_def list_all_iff split: option.splits)

lemma bound_ok_resolved:
  assumes "bound_ok s" "GetMenuItemInfoA (hmenu s) c = Some it" "dwItemData it = Some p"
  shows "\<exists>tr ms m. g_tray s = Some tr \<and> menu tr = Some ms \<and> node_at ms p = Some m \<and> is_item m"
proof -
  from assms(2) obtain hm where hm: "hmenu s = Some hm" "find_item c (items hm) = Some it"
    by (auto simp: GetMenuItemInfoA_def split: option.splits)
  from find_item_binding[OF hm(2)] assms(3) have "(c, p) \<in> set (menu_bindings hm)"
    by (simp add: menu_bindings_items)
  moreover have "refs_ok (case g_tray s of None \<Rightarrow> None | Some tr \<Rightarrow> menu tr) hm"
    using assms(1) hm(1) by (simp add: bound_ok_def)
  ultimately obtain ms m where
    "(case g_tray s of None \<Rightarrow> None | Some tr \<Rightarrow> menu tr) = Some ms"
    "node_at ms p = Some m" "is_item m"
    unfolding refs_ok_iff by blast
  then show ?thesis by (cases "g_tray s") auto
qed

lemma is_item_dispatched: "is_item (dispatched m) = is_item m"
  by (simp add: is_item_def dispatched_def)

lemma refs_ok_node_update:
  assumes "refs_ok (Some ms) hm"
  shows "refs_ok (Some (node_update toggle_checked ms p)) hm"
proof -
  have "\<exists>m'. node_at (node_update toggle_checked ms p) q = Some m' \<and> is_item m'"
    if "node_at ms q = Some m" "is_item m" for q m
  proof -
    have "map_option menu_text (node_at (node_update toggle_checked ms p) q) = Some (menu_text m)"
      using node_update_text[of toggle_checked ms p q] that(1) by simp
    then show ?thesis using that(2) by (auto simp: is_item_def)
  qed
  then show ?thesis using assms unfolding refs_ok_iff by fastforce
qed

lemma wm_command_bound:
  assumes "bound_ok s"
  shows "bound_ok (wm_command wparam s)"
    and "\<forall>e \<in> set (drop (length (trace s)) (trace (wm_command wparam s))).
           \<forall>k m. e = Ev_menu_cb k m \<longrightarrow> is_item m"
proof -
  consider (same) "wm_command wparam s = s"
    | (hit) tr ms it p m where "HIWORD wparam = 0" "g_tray s = Some tr" "menu tr = Some ms"
        "GetMenuItemInfoA (hmenu s) (ucast (LOWORD wparam)) = Some it"
        "dwItemData it = Some p" "node_at ms p = Some m"
    using wm_command_cases[of wparam s] by blast
  then have "bound_ok (wm_command wparam s) \<and>
     (\<forall>e \<in> set (drop (length (trace s)) (trace (wm_command wparam s))).
        \<forall>k m. e = Ev_menu_cb k m \<longrightarrow> is_item m)"
  proof cases
    case same
    then show ?thesis using assms by simp
  next
    case hit
    note e = wm_command_eq[OF hit]
    from bound_ok_resolved[OF assms hit(4,5)] hit(2,3,6) have im: "is_item m" by auto
    from hit(4) obtain hm where hm: "hmenu s = Some hm"
      by (auto simp: GetMenuItemInfoA_def split: option.splits)
    have r: "refs_ok (Some ms) hm" using assms hm hit(2,3) by (simp add: bound_ok_def)
    have tr: "\<forall>e \<in> set (drop (length (trace s)) (trace (wm_command wparam s))).
        \<forall>k m. e = Ev_menu_cb k m \<longrightarrow> is_item m"
      using wm_command_post(2)[OF hit] im is_item_dispatched[of m]
      by (auto split: option.splits)
    have b: "bound_ok (wm_command wparam s)"
    proof (cases "checkbox m \<noteq> 0")
      case False
      then show ?thesis using assms wm_command_post(4)[OF hit]
        by (auto simp: bound_ok_def split: option.splits)
    next
      case True
      let ?v = "if checked (toggle_checked m) \<noteq> 0 then MFS_CHECKED else 0"
      from bindings_Set[of "hmenu s" "ucast (LOWORD wparam)" ?v] hm
      obtain hm' where hm': "SetMenuItemInfoA (hmenu s) (ucast (LOWORD wparam)) ?v = Some hm'"
          "menu_bindings hm' = menu_bindings hm" by auto
      have "refs_ok (Some (node_update toggle_checked ms p)) hm'"
        using refs_ok_node_update[OF r, of p] hm'(2) by (simp add: refs_ok_iff)
      then show ?thesis using True hm'(1) by (simp add: e bound_ok_def)
    qed
    show ?thesis using b tr by blast
  qed
  then show "bound_ok (wm_command wparam s)"
    and "\<forall>e \<in> set (drop (length (trace s)) (trace (wm_command wparam s))).
           \<forall>k m. e = Ev_menu_cb k m \<longrightarrow> is_item m"
    by blast+
qed

lemma bound_ok_cong:
  "hmenu s' = hmenu s \<Longrightarrow> g_tray s' = g_tray s \<Longrightarrow> bound_ok s' = bound_ok s"
  by (simp add: bound_ok_def split: option.splits)

lemma step_ok_refl: "bound_ok s \<Longrightarrow> step_ok s s"
  by (simp add: step_ok_def)

lemma step_ok_emit:
  "step_ok s s' \<Longrightarrow> \<forall>k m. e \<noteq> Ev_menu_cb k m \<Longrightarrow> step_ok s (emit e s')"
  using bound_ok_cong[of "emit e s'" s'] by (auto simp: step_ok_def)

lemma step_ok_trans: "step_ok s s' \<Longrightarrow> step_ok s' s'' \<Longrightarrow> step_ok s s''"
  by (auto simp: step_ok_def)

lemma step_ok_wm_command:
  assumes "bound_ok s"
  shows "step_ok s (wm_command wparam s)"
proof -
  consider (same) "wm_command wparam s = s"
    | (hit) tr ms it p m where "HIWORD wparam = 0" "g_tray s = Some tr" "menu tr = Some ms"
        "GetMenuItemInfoA (hmenu s) (ucast (LOWORD wparam)) = Some it"
        "dwItemData it = Some p" "node_at ms p = Some m"
    using wm_command_cases[of wparam s] by blast
  then show ?thesis
  proof cases
    case same
    then show ?thesis using assms by (simp add: step_ok_refl)
  next
    case hit
    from bound_ok_resolved[OF assms hit(4,5)] hit(2,3,6) have im: "is_item m" by auto
    have "\<forall>e \<in> set (case cb m of None \<Rightarrow> [] | Some k \<Rightarrow> [Ev_menu_cb k (dispatched m)]).
            \<forall>k m. e = Ev_menu_cb k m \<longrightarrow> is_item m"
      using im is_item_dispatched[of m] by (auto split: option.splits)
    then show ?thesis
      using wm_command_bound(1)[OF assms, of wparam] wm_command_post(2)[OF hit]
      unfolding step_ok_def by blast
  qed
qed

lemma step_ok_taskbar_created:
  assumes "bound_ok s"
  shows "step_ok s (taskbar_created s)"
proof (cases "g_tray s")
  case None
  have "bound_ok (taskbar_created s) = bound_ok s"
    using None by (intro bound_ok_cong) (simp_all add: taskbar_created_def Let_def)
  moreover have "trace (taskbar_created s) = trace s @
     [Ev_Shell_NotifyIconA NIM_ADD
        ((nid s)\<lparr>uFlags := NIF_MESSAGE OR NIF_GUID, uCallbackMessage := WM_TRAY_CALLBACK_MESSAGE\<rparr>),
      Ev_Shell_NotifyIconA NIM_SETVERSION
        ((nid s)\<lparr>uFlags := NIF_MESSAGE OR NIF_GUID, uCallbackMessage := WM_TRAY_CALLBACK_MESSAGE,
                  uVersion := NOTIFYICON_VERSION_4\<rparr>)]"
    using None by (simp add: taskbar_created_def Let_def)
  ultimately show ?thesis using assms unfolding step_ok_def by auto
next
  case (Some tr)
  let ?evs = "[Ev_Shell_NotifyIconA NIM_ADD
        ((nid s)\<lparr>uFlags := NIF_MESSAGE OR NIF_GUID, uCallbackMessage := WM_TRAY_CALLBACK_MESSAGE\<rparr>),
      Ev_Shell_NotifyIconA NIM_SETVERSION
        ((nid s)\<lparr>uFlags := NIF_MESSAGE OR NIF_GUID, uCallbackMessage := WM_TRAY_CALLBACK_MESSAGE,
                  uVersion := NOTIFYICON_VERSION_4\<rparr>)] @
     destroy_events (hmenu s) @ tray_update_events tr (restart_state tr s)"
  have e: "taskbar_created s = tray_update tr (restart_state tr s)"
    by (rule taskbar_created_eq[OF Some])
  have t: "trace (taskbar_created s) = trace s @ ?evs"
    unfolding e by (simp add: trace_tray_update trace_restart_state)
  have "\<forall>e \<in> set ?evs. \<not> is_caller_cb e"
    using not_cb_update_events[of tr "restart_state tr s"]
    by (auto simp: destroy_events_def split: option.splits)
  then have "\<forall>e \<in> set ?evs. \<forall>k m. e = Ev_menu_cb k m \<longrightarrow> is_item m" by fastforce
  then show ?thesis
    using t bound_ok_tray_update[of tr "restart_state tr s"] unfolding step_ok_def e by blast
qed

lemma step_ok_if:
  "(c \<Longrightarrow> step_ok s a) \<Longrightarrow> (\<not> c \<Longrightarrow> step_ok s b) \<Longrightarrow> step_ok s (if c then a else b)"
  by simp

lemma step_ok_wnd_proc:
  assumes "bound_ok s"
  shows "step_ok s (tray_wnd_proc hw msg wparam lparam s)"
proof -
  note r = step_ok_refl[OF assms]
  have b1: "step_ok s (DestroyWindow hw s)"
    unfolding DestroyWindow_def by (intro step_ok_emit r) simp_all
  have b2: "step_ok s (emit Ev_PostQuitMessage s)"
    by (intro step_ok_emit r) simp
  have b3: "step_ok s (wm_command wparam s)"
    by (rule step_ok_wm_command[OF assms])
  have b4: "step_ok s
        (let s1 = emit (Ev_SetForegroundWindow hw) s;
             s2 = emit (Ev_TrackPopupMenu (map_option handle (hmenu s1))) s1;
             cmd = os_TrackPopupMenu (os s2);
             s3 = (if cmd \<noteq> 0 then wm_command (ucast cmd) s2 else s2)
         in emit (Ev_PostMessage WM_NULL) s3)"
  proof -
    let ?X = "emit (Ev_TrackPopupMenu (map_option handle (hmenu (emit (Ev_SetForegroundWindow hw) s))))
             (emit (Ev_SetForegroundWindow hw) s)"
    have x: "step_ok s ?X" by (intro step_ok_emit r) simp_all
    then have bx: "bound_ok ?X" by (simp add: step_ok_def)
    have "step_ok s (if os_TrackPopupMenu (os ?X) \<noteq> 0
                     then wm_command (ucast (os_TrackPopupMenu (os ?X))) ?X else ?X)"
      by (intro step_ok_if x step_ok_trans[OF x step_ok_wm_command[OF bx]])
    then have "step_ok s (emit (Ev_PostMessage WM_NULL)
        (if os_TrackPopupMenu (os ?X) \<noteq> 0
         then wm_command (ucast (os_TrackPopupMenu (os ?X))) ?X else ?X))"
      by (rule step_ok_emit) simp
    then show ?thesis unfolding Let_def .
  qed
  have b5: "step_ok s (case g_notification_cb s of
           None \<Rightarrow> s
         | Some k \<Rightarrow> emit (Ev_notification_cb k) s)"
    by (cases "g_notification_cb s") (auto intro: r step_ok_emit)
  have b6: "step_ok s (taskbar_created s)"
    by (rule step_ok_taskbar_created[OF assms])
  have b7: "step_ok s (emit (Ev_DefWindowProc msg) s)"
    by (intro step_ok_emit r) simp
  show ?thesis
    unfolding tray_wnd_proc_def
    by (intro step_ok_if b1 b2 b3 b4 b5 b6 b7)
qed

text \<open>
  C7. For a record whose text is exactly \<open>-\<close> the loop of \<open>_tray_menu\<close> inserts the
  separator item, which has the separator type and no item data and so binds no
  identifier, and goes on with the counter advanced by one. After \<open>tray_update\<close> every
  back-reference of the active menu leads to a record that is not a separator, and
  every message handled by the window procedure keeps it so; hence no command resolves
  to a separator record, and no menu callback is ever called with one.
\<close>

theorem separator_never_dispatched:
  "tray_menu_loop pre i (Tray_menu (Some ''-'') d c cx k ctx sub # ms) (idc, nh) =
     (separator_item # fst (tray_menu_loop pre (Suc i) ms (idc + 1, nh)),
      snd (tray_menu_loop pre (Suc i) ms (idc + 1, nh))) \<and>
   fType separator_item = MFT_SEPARATOR \<and> dwItemData separator_item = None \<and>
   item_bindings separator_item = [] \<and>
   bound_ok (tray_update tr s) \<and>
   (bound_ok s \<longrightarrow>
      bound_ok (tray_wnd_proc hw msg wparam lparam s) \<and>
      (\<forall>e \<in> set (drop (length (trace s)) (trace (tray_wnd_proc hw msg wparam lparam s))).
         \<forall>k m. e = Ev_menu_cb k m \<longrightarrow> menu_text m \<noteq> Some ''-'') \<and>
      (\<forall>cmd it p m. GetMenuItemInfoA (hmenu s) cmd = Some it \<and> dwItemData it = Some p \<and>
         deref s p = Some m \<longrightarrow> menu_text m \<noteq> Some ''-''))"
proof -
  have a: "tray_menu_loop pre i (Tray_menu (Some ''-'') d c cx k ctx sub # ms) (idc, nh) =
     (separator_item # fst (tray_menu_loop pre (Suc i) ms (idc + 1, nh)),
      snd (tray_menu_loop pre (Suc i) ms (idc + 1, nh)))"
    by (simp add: case_prod_beta)
  have b: "fType separator_item = MFT_SEPARATOR \<and> dwItemData separator_item = None \<and>
     item_bindings separator_item = []"
    by (simp add: separator_item_def)
  have c: "menu_text m \<noteq> Some ''-''"
    if "bound_ok s" "GetMenuItemInfoA (hmenu s) cmd = Some it" "dwItemData it = Some p"
       "deref s p = Some m" for cmd it p m
    using bound_ok_resolved[OF that(1,2,3)] that(4) by (auto simp: deref_def is_item_def)
  have d: "bound_ok (tray_wnd_proc hw msg wparam lparam s) \<and>
      (\<forall>e \<in> set (drop (length (trace s)) (trace (tray_wnd_proc hw msg wparam lparam s))).
         \<forall>k m. e = Ev_menu_cb k m \<longrightarrow> menu_text m \<noteq> Some ''-'')" if "bound_ok s"
    using step_ok_wnd_proc[OF that, of hw msg wparam lparam]
    by (auto simp: step_ok_def is_item_def)
  show ?thesis
    using a b bound_ok_tray_update[of tr s] c d by blast
qed

theorem separator_never_dispatched_witness:
  "bound_ok (tray_update tray_scenario state0) \<and>
   bound_ok (tray_wnd_proc 1 WM_COMMAND (ucast (1001 :: WORD)) 0 (tray_update tray_scenario state0)) \<and>
   tray_wnd_proc 1 WM_COMMAND (ucast (1001 :: WORD)) 0 (tray_update tray_scenario state0) =
     tray_update tray_scenario state0 \<and>
   tray_wnd_proc 1 WM_COMMAND (ucast (0 :: WORD)) 0 (tray_update tray_scenario state0) =
     tray_update tray_scenario state0 \<and>
   (\<forall>e \<in> set (drop (length (trace (tray_update tray_scenario state0)))
                (trace (tray_wnd_proc 1 WM_COMMAND (ucast (1002 :: WORD)) 0
                          (tray_update tray_scenario state0)))).
      \<forall>k m. e = Ev_menu_cb k m \<longrightarrow> menu_text m \<noteq> Some ''-'')"
proof -
  let ?s = "tray_update tray_scenario state0"
  have h: "bound_ok ?s"
    using separator_never_dispatched[where tr = tray_scenario and s = state0]
    by blast
  have a: "wm_command (ucast (1001 :: WORD)) ?s = ?s"
    unfolding wm_command_def HIWORD_ucast LOWORD_ucast hmenu_scenario
    by (simp add: GetMenuItemInfoA_def separator_item_def)
  have b: "wm_command (ucast (0 :: WORD)) ?s = ?s"
    unfolding wm_command_def HIWORD_ucast LOWORD_ucast hmenu_scenario
    by (simp add: GetMenuItemInfoA_def separator_item_def)
  have c1: "bound_ok (tray_wnd_proc 1 WM_COMMAND (ucast (1001 :: WORD)) 0 ?s)"
    using h separator_never_dispatched[where s = ?s and hw = 1 and msg = WM_COMMAND
        and wparam = "ucast (1001 :: WORD)" and lparam = 0]
    by blast
  have c2: "\<forall>e \<in> set (drop (length (trace ?s))
                (trace (tray_wnd_proc 1 WM_COMMAND (ucast (1002 :: WORD)) 0 ?s))).
      \<forall>k m. e = Ev_menu_cb k m \<longrightarrow> menu_text m \<noteq> Some ''-''"
    using h separator_never_dispatched[where s = ?s and hw = 1 and msg = WM_COMMAND
        and wparam = "ucast (1002 :: WORD)" and lparam = 0]
    by blast
  have c3: "tray_wnd_proc 1 WM_COMMAND (ucast (1001 :: WORD)) 0 ?s = ?s"
    "tray_wnd_proc 1 WM_COMMAND (ucast (0 :: WORD)) 0 ?s = ?s"
    using a b by (simp_all only: wnd_proc_command)
  show ?thesis using h c1 c2 c3 by blast
qed

end
